theory Spec2Isabelle
  imports Complex_Main "HOL-Library.AList"
begin

section \<open>Python values and builtins\<close>

text \<open>
  The bot (\<^verbatim>\<open>src/discord_mcp/server.py\<close>) keeps its rules and tasks in
  module-level dictionaries and reads rule payloads with \<^verbatim>\<open>dict.get\<close> and
  truthiness tests. Payload values are JSON values (numbers are integers here; the
  handlers read identifiers, flags and text from a payload); a string is a list of
  characters, a \<^typ>\<open>char\<close> standing for one character of a Python \<^verbatim>\<open>str\<close>.
\<close>

datatype pyval =
    PNone
  | PBool bool
  | PInt int
  | PStr string
  | PList "pyval list"
  | PDict "(string \<times> pyval) list"

text \<open>Python truth value testing, as used by \<^verbatim>\<open>if x:\<close> and \<^verbatim>\<open>not x\<close>.\<close>

fun truthy :: "pyval \<Rightarrow> bool" where
  "truthy PNone = False"
| "truthy (PBool b) = b"
| "truthy (PInt i) = (i \<noteq> 0)"
| "truthy (PStr s) = (s \<noteq> [])"
| "truthy (PList xs) = (xs \<noteq> [])"
| "truthy (PDict kvs) = (kvs \<noteq> [])"

text \<open>The exceptions the modelled code can raise; a platform error carries its text.\<close>

datatype exc =
    ValueError
  | TypeError
  | AttributeError
  | ZeroDivisionError
  | OverflowError
  | RuntimeError
  | ApiError string

definition bind_exc :: "exc + 'a \<Rightarrow> ('a \<Rightarrow> exc + 'b) \<Rightarrow> exc + 'b" where
  "bind_exc x f = (case x of Inl e \<Rightarrow> Inl e | Inr v \<Rightarrow> f v)"

text \<open>A JSON number as a tool argument: a Python \<^verbatim>\<open>int\<close> or \<^verbatim>\<open>float\<close>.\<close>

datatype 'f number = NInt int | NFloat 'f

text \<open>
  Builtins of the Python runtime that the repository does not define are parameters of
  the model: integer parsing of a \<^verbatim>\<open>str\<close>, the Unicode character classes,
  \<^verbatim>\<open>str.strip\<close>, \<^verbatim>\<open>str.lower\<close>, float division and comparison
  (\<^verbatim>\<open>int / int\<close> for a non-zero divisor, \<^verbatim>\<open>>=\<close> on floats), the
  conversions \<^verbatim>\<open>float(i)\<close> of an int and \<^verbatim>\<open>int(x)\<close> of a float, each with
  the exception it may raise, and the exception, if any, that
  \<^verbatim>\<open>discord.utils.utcnow() + timedelta(minutes=x)\<close> raises.
\<close>

record 'f runtime =
  int_of_str :: "string \<Rightarrow> int option"
  isalpha :: "char \<Rightarrow> bool"
  isupper :: "char \<Rightarrow> bool"
  strip :: "string \<Rightarrow> string"
  lower :: "string \<Rightarrow> string"
  truediv :: "nat \<Rightarrow> nat \<Rightarrow> 'f"
  float_ge :: "'f \<Rightarrow> 'f \<Rightarrow> bool"
  int_to_float :: "int \<Rightarrow> exc + 'f"
  float_to_int :: "'f \<Rightarrow> exc + int"
  timedelta_error :: "'f number \<Rightarrow> exc option"

text \<open>\<^verbatim>\<open>float(x)\<close> and \<^verbatim>\<open>int(x)\<close> of a JSON number.\<close>

fun number_float :: "('f, 'm) runtime_scheme \<Rightarrow> 'f number \<Rightarrow> exc + 'f" where
  "number_float rt (NInt i) = int_to_float rt i"
| "number_float rt (NFloat x) = Inr x"

fun number_int :: "('f, 'm) runtime_scheme \<Rightarrow> 'f number \<Rightarrow> exc + int" where
  "number_int rt (NInt i) = Inr i"
| "number_int rt (NFloat x) = float_to_int rt x"

text \<open>\<^verbatim>\<open>int(x)\<close>: a string is parsed, an int is itself, a bool is 0 or 1, anything
  else is a \<^verbatim>\<open>TypeError\<close>.\<close>

fun py_int :: "('f, 'm) runtime_scheme \<Rightarrow> pyval \<Rightarrow> exc + int" where
  "py_int rt (PStr s) = (case int_of_str rt s of None \<Rightarrow> Inl ValueError | Some i \<Rightarrow> Inr i)"
| "py_int rt (PInt i) = Inr i"
| "py_int rt (PBool b) = Inr (if b then 1 else 0)"
| "py_int rt PNone = Inl TypeError"
| "py_int rt (PList xs) = Inl TypeError"
| "py_int rt (PDict kvs) = Inl TypeError"

text \<open>\<^verbatim>\<open>str(n)\<close> for an integer: its decimal numeral.\<close>

definition digit_char :: "nat \<Rightarrow> char" where
  "digit_char d = char_of (48 + d)"

function str_nat :: "nat \<Rightarrow> string" where
  "str_nat n = (if n < 10 then [digit_char n] else str_nat (n div 10) @ [digit_char (n mod 10)])"
  by pat_completeness auto
termination
  by (relation "measure id") auto

declare str_nat.simps [simp del]

definition str_int :: "int \<Rightarrow> string" where
  "str_int i = (if i < 0 then CHR ''-'' # str_nat (nat (- i)) else str_nat (nat i))"

text \<open>
  \<^verbatim>\<open>str(ident) != str(v)\<close> for an integer identifier and a payload value, negated:
  whether the two renderings are equal. The rendering of a string is the string, of an
  int its numeral; \<^verbatim>\<open>str\<close> of \<^verbatim>\<open>None\<close>, a bool, a list or a dict
  (\<^verbatim>\<open>None\<close>, \<^verbatim>\<open>True\<close>, \<^verbatim>\<open>[...]\<close>, \<^verbatim>\<open>{...}\<close>) is never a numeral.
\<close>

fun str_eq_ident :: "int \<Rightarrow> pyval \<Rightarrow> bool" where
  "str_eq_ident n (PStr s) = (str_int n = s)"
| "str_eq_ident n (PInt i) = (str_int n = str_int i)"
| "str_eq_ident n PNone = False"
| "str_eq_ident n (PBool b) = False"
| "str_eq_ident n (PList xs) = False"
| "str_eq_ident n (PDict kvs) = False"

text \<open>
  \<^verbatim>\<open>s.replace(old, new)\<close>: every non-overlapping occurrence of \<open>old\<close>, found left to
  right, is replaced. For an empty \<open>old\<close> Python inserts \<open>new\<close> before every character
  and at the end.
\<close>

fun is_prefix :: "string \<Rightarrow> string \<Rightarrow> bool" where
  "is_prefix [] s = True"
| "is_prefix (p # ps) [] = False"
| "is_prefix (p # ps) (c # cs) = (p = c \<and> is_prefix ps cs)"

function replace_nonempty :: "string \<Rightarrow> string \<Rightarrow> string \<Rightarrow> string" where
  "replace_nonempty old new [] = []"
| "replace_nonempty old new (c # cs) =
     (if old \<noteq> [] \<and> is_prefix old (c # cs)
      then new @ replace_nonempty old new (drop (length old) (c # cs))
      else c # replace_nonempty old new cs)"
  by pat_completeness auto
termination
  by (relation "measure (\<lambda>(old, new, s). length s)") auto

definition replace_str :: "string \<Rightarrow> string \<Rightarrow> string \<Rightarrow> string" where
  "replace_str old new s =
     (if old = [] then new @ concat (map (\<lambda>c. c # new) s) else replace_nonempty old new s)"

section \<open>Rules, events and the bot's state\<close>

text \<open>
  An automation rule, with the fields \<^verbatim>\<open>create_automation_rule\<close> stores and the
  types its input schema gives them: \<^verbatim>\<open>server_id\<close> and \<^verbatim>\<open>trigger_value\<close> are
  optional strings (\<^verbatim>\<open>None\<close> when absent), \<^verbatim>\<open>enabled\<close> is a boolean,
  \<^verbatim>\<open>action_payload\<close> is an object with arbitrary values.
\<close>

record rule =
  rule_ident :: string
  server_id :: "string option"
  rule_name :: string
  trigger_type :: string
  trigger_value :: "string option"
  action_type :: string
  action_payload :: "(string \<times> pyval) list"
  enabled :: bool
  created_at :: string

text \<open>The member of \<^verbatim>\<open>on_member_join\<close>, with the attributes the handler reads.\<close>

record member =
  member_id :: int
  member_name :: string
  member_mention :: string
  member_guild_id :: int
  member_guild_name :: string

text \<open>
  The reaction and user of \<^verbatim>\<open>on_reaction_add\<close> and \<^verbatim>\<open>on_reaction_remove\<close>:
  \<open>in_text_channel\<close> is \<^verbatim>\<open>isinstance(reaction.message.channel, discord.TextChannel)\<close>,
  \<open>emoji_str\<close> is \<^verbatim>\<open>str(reaction.emoji)\<close>; name and mention are those of the member
  fetched for the user.
\<close>

record reaction_event =
  user_id :: int
  user_bot :: bool
  user_name :: string
  user_mention :: string
  in_text_channel :: bool
  guild_id :: int
  guild_name :: string
  message_id :: int
  emoji_str :: string

text \<open>
  The Discord platform is the external collaborator. Its calls either raise (decided by
  \<open>fails\<close>, which gives the error text) or take effect on the platform's state: the
  roles of each member of each guild, the embeds sent, the messages deleted and the
  members timed out. Of an embed the channel, title, description and footer are kept
  (its colour is a constant and its thumbnail the member's avatar); the audit-log reason
  passed with a role change is left out.
\<close>

datatype call =
    FetchChannel int
  | FetchMember int int
  | Send int
  | AddRoles int int int
  | RemoveRoles int int int
  | DeleteMessage int
  | TimeoutMember int

record embed =
  embed_channel :: int
  embed_title :: string
  embed_description :: string
  embed_footer :: "string option"

record platform =
  fails :: "call \<Rightarrow> string option"
  guild_roles :: "int \<Rightarrow> (int \<times> string) list"
  member_roles :: "int \<times> int \<Rightarrow> int list"
  outbox :: "embed list"
  deleted :: "int list"
  timeouts :: "int list"

datatype log_entry =
    LogInfo string
  | LogWarning string
  | LogError string exc

datatype task_status = Scheduled | Running | Completed | Failed

record task =
  task_ident :: string
  task_type :: string
  run_at :: int
  task_created_at :: int
  status :: task_status
  payload :: "(string \<times> pyval) list"
  task_result :: "string option"
  task_error :: "exc option"

text \<open>
  The module's global state: the client reference, the two registries with their
  counters, the log, and the platform. \<^verbatim>\<open>automation_rules\<close> is iterated in
  insertion order, so it is an association list.
\<close>

record bot_state =
  discord_client :: bool
  automation_rules :: "(string \<times> rule) list"
  automation_rule_counter :: nat
  scheduled_tasks :: "string \<rightharpoonup> task"
  scheduled_task_counter :: nat
  logged :: "log_entry list"
  world :: platform

definition log_info :: "string \<Rightarrow> bot_state \<Rightarrow> bot_state" where
  "log_info msg st = st\<lparr>logged := logged st @ [LogInfo msg]\<rparr>"

definition log_error :: "string \<Rightarrow> exc \<Rightarrow> bot_state \<Rightarrow> bot_state" where
  "log_error msg e st = st\<lparr>logged := logged st @ [LogError msg e]\<rparr>"

subsection \<open>Platform calls\<close>

definition api :: "call \<Rightarrow> bot_state \<Rightarrow> exc + unit" where
  "api c st = (case fails (world st) c of Some msg \<Rightarrow> Inl (ApiError msg) | None \<Rightarrow> Inr ())"

definition fetch_channel :: "int \<Rightarrow> bot_state \<Rightarrow> exc + int" where
  "fetch_channel cid st = bind_exc (api (FetchChannel cid) st) (\<lambda>_. Inr cid)"

definition channel_send :: "int \<Rightarrow> string \<Rightarrow> string \<Rightarrow> string option \<Rightarrow> bot_state \<Rightarrow> exc + bot_state" where
  "channel_send cid title description footer st =
     bind_exc (api (Send cid) st) (\<lambda>_.
       Inr (st\<lparr>world := (world st)\<lparr>outbox := outbox (world st) @
         [\<lparr>embed_channel = cid, embed_title = title, embed_description = description,
           embed_footer = footer\<rparr>]\<rparr>\<rparr>))"

text \<open>\<^verbatim>\<open>guild.get_role(id)\<close>: a cache lookup, \<^verbatim>\<open>None\<close> for an unknown role.\<close>

definition get_role :: "int \<Rightarrow> int \<Rightarrow> bot_state \<Rightarrow> string option" where
  "get_role gid rid st = map_of (guild_roles (world st) gid) rid"

text \<open>
  \<^verbatim>\<open>member.add_roles(role)\<close> and \<^verbatim>\<open>member.remove_roles(role)\<close>: the platform
  keeps each role of a member once, adding a role held and removing a role not held
  change nothing.
\<close>

definition grant :: "int \<Rightarrow> int \<Rightarrow> int \<Rightarrow> bot_state \<Rightarrow> bot_state" where
  "grant gid uid rid st =
     (let held = member_roles (world st) (gid, uid) in
      st\<lparr>world := (world st)\<lparr>member_roles := (member_roles (world st))
        ((gid, uid) := (if rid \<in> set held then held else held @ [rid]))\<rparr>\<rparr>)"

definition revoke :: "int \<Rightarrow> int \<Rightarrow> int \<Rightarrow> bot_state \<Rightarrow> bot_state" where
  "revoke gid uid rid st =
     st\<lparr>world := (world st)\<lparr>member_roles := (member_roles (world st))
       ((gid, uid) := removeAll rid (member_roles (world st) (gid, uid)))\<rparr>\<rparr>"

definition add_roles :: "int \<Rightarrow> int \<Rightarrow> int \<Rightarrow> bot_state \<Rightarrow> exc + bot_state" where
  "add_roles gid uid rid st =
     bind_exc (api (AddRoles gid uid rid) st) (\<lambda>_. Inr (grant gid uid rid st))"

definition remove_roles :: "int \<Rightarrow> int \<Rightarrow> int \<Rightarrow> bot_state \<Rightarrow> exc + bot_state" where
  "remove_roles gid uid rid st =
     bind_exc (api (RemoveRoles gid uid rid) st) (\<lambda>_. Inr (revoke gid uid rid st))"

text \<open>
  \<^verbatim>\<open>action_payload.get("content", default)\<close> followed by \<^verbatim>\<open>.replace\<close>: only a
  \<^verbatim>\<open>str\<close> has the method, any other value raises \<^verbatim>\<open>AttributeError\<close>.
\<close>

definition payload_content :: "(string \<times> pyval) list \<Rightarrow> string \<Rightarrow> exc + string" where
  "payload_content pl dflt =
     (case map_of pl ''content'' of
        None \<Rightarrow> Inr dflt
      | Some (PStr s) \<Rightarrow> Inr s
      | Some _ \<Rightarrow> Inl AttributeError)"

text \<open>\<^verbatim>\<open>server_id and str(guild.id) != str(server_id)\<close>.\<close>

fun server_mismatch :: "int \<Rightarrow> string option \<Rightarrow> bool" where
  "server_mismatch gid None = False"
| "server_mismatch gid (Some s) = (s \<noteq> [] \<and> str_int gid \<noteq> s)"

section \<open>The event handlers\<close>

subsection \<open>on_member_join\<close>

definition member_join_guard :: "member \<Rightarrow> rule \<Rightarrow> bool" where
  "member_join_guard m r =
     (if \<not> enabled r then False
      else if trigger_type r \<noteq> ''member_join'' then False
      else if server_mismatch (member_guild_id m) (server_id r) then False
      else True)"

text \<open>The body of the \<^verbatim>\<open>try\<close>: \<open>Inl\<close> is the exception that reaches \<^verbatim>\<open>except\<close>.\<close>

definition member_join_action ::
  "('f, 'm) runtime_scheme \<Rightarrow> member \<Rightarrow> string \<Rightarrow> rule \<Rightarrow> bot_state \<Rightarrow> exc + bot_state" where
  "member_join_action rt m rid r st =
     (if action_type r = ''send_message'' then
        (case map_of (action_payload r) ''channel_id'' of
           None \<Rightarrow> Inr st
         | Some channel_id \<Rightarrow>
             if \<not> truthy channel_id then Inr st
             else
               bind_exc (py_int rt channel_id) (\<lambda>cid.
               bind_exc (fetch_channel cid st) (\<lambda>channel.
               bind_exc (payload_content (action_payload r) ''Welcome to the server!'') (\<lambda>content.
                 let content = replace_str ''{user}'' (member_mention m) content;
                     content = replace_str ''{username}'' (member_name m) content;
                     content = replace_str ''{server}'' (member_guild_name m) content
                 in
               bind_exc (channel_send channel ''Welcome!'' content None st) (\<lambda>st'.
                 Inr (log_info (''Executed automation rule '' @ rid @ '': sent welcome message'') st'))))))
      else if action_type r = ''assign_role'' then
        (case map_of (action_payload r) ''role_id'' of
           None \<Rightarrow> Inr st
         | Some role_id \<Rightarrow>
             if \<not> truthy role_id then Inr st
             else
               bind_exc (py_int rt role_id) (\<lambda>rl.
                 case get_role (member_guild_id m) rl st of
                   None \<Rightarrow> Inr st
                 | Some _ \<Rightarrow>
                     bind_exc (add_roles (member_guild_id m) (member_id m) rl st) (\<lambda>st'.
                       Inr (log_info (''Executed automation rule '' @ rid @ '': assigned role'') st'))))
      else if action_type r = ''log'' then
        Inr (log_info (''Automation rule '' @ rid @ '' triggered for member '' @ member_name m
               @ '' (ID: '' @ str_int (member_id m) @ '')'') st)
      else Inr st)"

definition member_join_rule ::
  "('f, 'm) runtime_scheme \<Rightarrow> member \<Rightarrow> string \<times> rule \<Rightarrow> bot_state \<Rightarrow> bot_state" where
  "member_join_rule rt m p st =
     (if \<not> member_join_guard m (snd p) then st
      else
        (case member_join_action rt m (fst p) (snd p) st of
           Inr st' \<Rightarrow> st'
         | Inl e \<Rightarrow> log_error (''Error executing automation rule '' @ fst p @ '': '') e st))"

definition on_member_join :: "('f, 'm) runtime_scheme \<Rightarrow> member \<Rightarrow> bot_state \<Rightarrow> bot_state" where
  "on_member_join rt m st =
     (if \<not> discord_client st then st
      else fold (member_join_rule rt m) (automation_rules st) st)"

subsection \<open>on_reaction_add\<close>

text \<open>\<^verbatim>\<open>trigger_value and emoji_str != trigger_value\<close>.\<close>

fun trigger_mismatch :: "string \<Rightarrow> string option \<Rightarrow> bool" where
  "trigger_mismatch em None = False"
| "trigger_mismatch em (Some tv) = (tv \<noteq> [] \<and> em \<noteq> tv)"

text \<open>\<^verbatim>\<open>message_id and str(reaction.message.id) != str(message_id)\<close> for the
  \<^verbatim>\<open>message_id\<close> of the payload.\<close>

definition message_mismatch :: "int \<Rightarrow> (string \<times> pyval) list \<Rightarrow> bool" where
  "message_mismatch mid pl =
     (case map_of pl ''message_id'' of
        None \<Rightarrow> False
      | Some v \<Rightarrow> truthy v \<and> \<not> str_eq_ident mid v)"

text \<open>The checks both reaction handlers make before the \<^verbatim>\<open>try\<close>, in their order.\<close>

definition reaction_guard :: "reaction_event \<Rightarrow> rule \<Rightarrow> bool" where
  "reaction_guard ev r =
     (if \<not> enabled r then False
      else if trigger_type r \<noteq> ''reaction_added'' then False
      else if server_mismatch (guild_id ev) (server_id r) then False
      else if trigger_mismatch (emoji_str ev) (trigger_value r) then False
      else if message_mismatch (message_id ev) (action_payload r) then False
      else True)"

text \<open>\<open>held\<close> is \<^verbatim>\<open>member.roles\<close> of the member fetched at the start of the handler.\<close>

definition reaction_add_action ::
  "('f, 'm) runtime_scheme \<Rightarrow> reaction_event \<Rightarrow> int list \<Rightarrow> string \<Rightarrow> rule \<Rightarrow> bot_state
     \<Rightarrow> exc + bot_state" where
  "reaction_add_action rt ev held rid r st =
     (if action_type r = ''assign_role'' then
        (case map_of (action_payload r) ''role_id'' of
           None \<Rightarrow> Inr st
         | Some role_id \<Rightarrow>
             if \<not> truthy role_id then Inr st
             else
               bind_exc (py_int rt role_id) (\<lambda>rl.
                 case get_role (guild_id ev) rl st of
                   None \<Rightarrow> Inr st
                 | Some role_nm \<Rightarrow>
                     if rl \<in> set held then Inr st
                     else
                       bind_exc (add_roles (guild_id ev) (user_id ev) rl st) (\<lambda>st'.
                         Inr (log_info (''Executed automation rule '' @ rid @ '': assigned role ''
                                @ role_nm @ '' to '' @ user_name ev) st'))))
      else if action_type r = ''send_message'' then
        (case map_of (action_payload r) ''channel_id'' of
           None \<Rightarrow> Inr st
         | Some channel_id \<Rightarrow>
             if \<not> truthy channel_id then Inr st
             else
               bind_exc (py_int rt channel_id) (\<lambda>cid.
               bind_exc (fetch_channel cid st) (\<lambda>channel.
               bind_exc (payload_content (action_payload r) ''Reaction received!'') (\<lambda>content.
                 let content = replace_str ''{user}'' (user_mention ev) content;
                     content = replace_str ''{username}'' (user_name ev) content;
                     content = replace_str ''{emoji}'' (emoji_str ev) content
                 in
               bind_exc (channel_send channel ''Reaction Event'' content
                           (Some (''Reaction: '' @ emoji_str ev)) st) (\<lambda>st'.
                 Inr (log_info (''Executed automation rule '' @ rid @ '': sent message'') st'))))))
      else if action_type r = ''log'' then
        Inr (log_info (''Automation rule '' @ rid @ '' triggered for reaction '' @ emoji_str ev
               @ '' by '' @ user_name ev @ '' (ID: '' @ str_int (user_id ev) @ '')'') st)
      else Inr st)"

definition reaction_add_rule ::
  "('f, 'm) runtime_scheme \<Rightarrow> reaction_event \<Rightarrow> int list \<Rightarrow> string \<times> rule \<Rightarrow> bot_state
     \<Rightarrow> bot_state" where
  "reaction_add_rule rt ev held p st =
     (if \<not> reaction_guard ev (snd p) then st
      else
        (case reaction_add_action rt ev held (fst p) (snd p) st of
           Inr st' \<Rightarrow> st'
         | Inl e \<Rightarrow> log_error (''Error executing automation rule '' @ fst p @ '': '') e st))"

text \<open>
  The handler returns at once when the client is not ready, the user is a bot, the
  channel is not a text channel, or fetching the member raises.
\<close>

definition on_reaction_add ::
  "('f, 'm) runtime_scheme \<Rightarrow> reaction_event \<Rightarrow> bot_state \<Rightarrow> bot_state" where
  "on_reaction_add rt ev st =
     (if \<not> discord_client st then st
      else if user_bot ev then st
      else if \<not> in_text_channel ev then st
      else
        (case api (FetchMember (guild_id ev) (user_id ev)) st of
           Inl e \<Rightarrow> st
         | Inr _ \<Rightarrow>
             fold (reaction_add_rule rt ev (member_roles (world st) (guild_id ev, user_id ev)))
               (automation_rules st) st))"

subsection \<open>on_reaction_remove\<close>

text \<open>\<^verbatim>\<open>action_payload.get("remove_on_unreact", True)\<close>, tested for truth.\<close>

definition remove_on_unreact :: "(string \<times> pyval) list \<Rightarrow> bool" where
  "remove_on_unreact pl =
     (case map_of pl ''remove_on_unreact'' of None \<Rightarrow> True | Some v \<Rightarrow> truthy v)"

definition reaction_remove_guard :: "reaction_event \<Rightarrow> rule \<Rightarrow> bool" where
  "reaction_remove_guard ev r =
     (if \<not> reaction_guard ev r then False
      else if \<not> remove_on_unreact (action_payload r) then False
      else True)"

definition reaction_remove_action ::
  "('f, 'm) runtime_scheme \<Rightarrow> reaction_event \<Rightarrow> int list \<Rightarrow> string \<Rightarrow> rule \<Rightarrow> bot_state
     \<Rightarrow> exc + bot_state" where
  "reaction_remove_action rt ev held rid r st =
     (if action_type r = ''assign_role'' then
        (case map_of (action_payload r) ''role_id'' of
           None \<Rightarrow> Inr st
         | Some role_id \<Rightarrow>
             if \<not> truthy role_id then Inr st
             else
               bind_exc (py_int rt role_id) (\<lambda>rl.
                 case get_role (guild_id ev) rl st of
                   None \<Rightarrow> Inr st
                 | Some role_nm \<Rightarrow>
                     if rl \<notin> set held then Inr st
                     else
                       bind_exc (remove_roles (guild_id ev) (user_id ev) rl st) (\<lambda>st'.
                         Inr (log_info (''Executed automation rule '' @ rid @ '': removed role ''
                                @ role_nm @ '' from '' @ user_name ev) st'))))
      else Inr st)"

definition reaction_remove_rule ::
  "('f, 'm) runtime_scheme \<Rightarrow> reaction_event \<Rightarrow> int list \<Rightarrow> string \<times> rule \<Rightarrow> bot_state
     \<Rightarrow> bot_state" where
  "reaction_remove_rule rt ev held p st =
     (if \<not> reaction_remove_guard ev (snd p) then st
      else
        (case reaction_remove_action rt ev held (fst p) (snd p) st of
           Inr st' \<Rightarrow> st'
         | Inl e \<Rightarrow>
             log_error (''Error executing automation rule '' @ fst p @ '' on reaction remove: '')
               e st))"

definition on_reaction_remove ::
  "('f, 'm) runtime_scheme \<Rightarrow> reaction_event \<Rightarrow> bot_state \<Rightarrow> bot_state" where
  "on_reaction_remove rt ev st =
     (if \<not> discord_client st then st
      else if user_bot ev then st
      else if \<not> in_text_channel ev then st
      else
        (case api (FetchMember (guild_id ev) (user_id ev)) st of
           Inl e \<Rightarrow> st
         | Inr _ \<Rightarrow>
             fold (reaction_remove_rule rt ev (member_roles (world st) (guild_id ev, user_id ev)))
               (automation_rules st) st))"

section \<open>The rule registry\<close>

text \<open>
  \<^verbatim>\<open>next_automation_rule_id\<close> and the \<^verbatim>\<open>create_automation_rule\<close> tool. Absent
  optional arguments are \<open>None\<close>; \<open>now\<close> is the clock's reading.
\<close>

definition next_automation_rule_id :: "bot_state \<Rightarrow> string \<times> bot_state" where
  "next_automation_rule_id st =
     (let n = automation_rule_counter st + 1
      in (str_nat n, st\<lparr>automation_rule_counter := n\<rparr>))"

record rule_args =
  arg_server_id :: "string option"
  arg_name :: string
  arg_trigger_type :: string
  arg_trigger_value :: "string option"
  arg_action_type :: string
  arg_action_payload :: "(string \<times> pyval) list option"
  arg_enabled :: "bool option"

definition create_automation_rule :: "rule_args \<Rightarrow> string \<Rightarrow> bot_state \<Rightarrow> string \<times> bot_state" where
  "create_automation_rule args now st =
     (let (rid, st1) = next_automation_rule_id st;
          r = \<lparr>rule_ident = rid,
               server_id = arg_server_id args,
               rule_name = arg_name args,
               trigger_type = arg_trigger_type args,
               trigger_value = arg_trigger_value args,
               action_type = arg_action_type args,
               action_payload = (case arg_action_payload args of None \<Rightarrow> [] | Some pl \<Rightarrow> pl),
               enabled = (case arg_enabled args of None \<Rightarrow> True | Some b \<Rightarrow> b),
               created_at = now\<rparr>
      in (rid, st1\<lparr>automation_rules := AList.update rid r (automation_rules st1)\<rparr>))"

section \<open>The handlers over the live registry\<close>

text \<open>
  Each handler iterates \<^verbatim>\<open>automation_rules.items()\<close> of the module's dict itself,
  and the body of its loop awaits platform calls. The tool server runs on the same event
  loop, so a \<^verbatim>\<open>create_automation_rule\<close> call can run while a handler is suspended
  in such a call. A loop body suspends when it reaches \<^verbatim>\<open>fetch_channel\<close>,
  \<^verbatim>\<open>add_roles\<close> or \<^verbatim>\<open>remove_roles\<close>, whether or not the call then raises.
\<close>

text \<open>The \<^verbatim>\<open>send_message\<close> branch reaches \<^verbatim>\<open>fetch_channel\<close>: the payload has
  a true \<^verbatim>\<open>channel_id\<close> that \<^verbatim>\<open>int\<close> accepts.\<close>

definition reaches_fetch :: "('f, 'm) runtime_scheme \<Rightarrow> (string \<times> pyval) list \<Rightarrow> bool" where
  "reaches_fetch rt pl =
     (case map_of pl ''channel_id'' of
        None \<Rightarrow> False
      | Some channel_id \<Rightarrow>
          if \<not> truthy channel_id then False
          else (case py_int rt channel_id of Inl e \<Rightarrow> False | Inr cid \<Rightarrow> True))"

text \<open>The role an \<^verbatim>\<open>assign_role\<close> branch finds with \<^verbatim>\<open>get_role\<close>, if any.\<close>

definition named_role ::
  "('f, 'm) runtime_scheme \<Rightarrow> int \<Rightarrow> (string \<times> pyval) list \<Rightarrow> bot_state \<Rightarrow> int option" where
  "named_role rt gid pl st =
     (case map_of pl ''role_id'' of
        None \<Rightarrow> None
      | Some role_id \<Rightarrow>
          if \<not> truthy role_id then None
          else
            (case py_int rt role_id of
               Inl e \<Rightarrow> None
             | Inr rl \<Rightarrow> (case get_role gid rl st of None \<Rightarrow> None | Some role_nm \<Rightarrow> Some rl)))"

text \<open>Whether the loop body of each handler suspends for a rule.\<close>

definition member_join_awaits ::
  "('f, 'm) runtime_scheme \<Rightarrow> member \<Rightarrow> rule \<Rightarrow> bot_state \<Rightarrow> bool" where
  "member_join_awaits rt m r st =
     (if \<not> member_join_guard m r then False
      else if action_type r = ''send_message'' then reaches_fetch rt (action_payload r)
      else if action_type r = ''assign_role'' then
        (case named_role rt (member_guild_id m) (action_payload r) st of
           None \<Rightarrow> False | Some rl \<Rightarrow> True)
      else False)"

definition reaction_add_awaits ::
  "('f, 'm) runtime_scheme \<Rightarrow> reaction_event \<Rightarrow> int list \<Rightarrow> rule \<Rightarrow> bot_state \<Rightarrow> bool" where
  "reaction_add_awaits rt ev held r st =
     (if \<not> reaction_guard ev r then False
      else if action_type r = ''assign_role'' then
        (case named_role rt (guild_id ev) (action_payload r) st of
           None \<Rightarrow> False | Some rl \<Rightarrow> rl \<notin> set held)
      else if action_type r = ''send_message'' then reaches_fetch rt (action_payload r)
      else False)"

definition reaction_remove_awaits ::
  "('f, 'm) runtime_scheme \<Rightarrow> reaction_event \<Rightarrow> int list \<Rightarrow> rule \<Rightarrow> bot_state \<Rightarrow> bool" where
  "reaction_remove_awaits rt ev held r st =
     (if \<not> reaction_remove_guard ev r then False
      else if action_type r = ''assign_role'' then
        (case named_role rt (guild_id ev) (action_payload r) st of
           None \<Rightarrow> False | Some rl \<Rightarrow> rl \<in> set held)
      else False)"

text \<open>
  The rule creations that arrive while a handler runs are given per iteration of its
  loop: the first list holds the arguments (and clock readings) of the calls that run
  while the first iteration is suspended, and so on. Calls listed for an iteration that
  does not suspend do not run during the loop.
\<close>

fun arrivals :: "'a list list \<Rightarrow> 'a list" where
  "arrivals [] = []"
| "arrivals (c # cs) = c"

fun later :: "'a list list \<Rightarrow> 'a list list" where
  "later [] = []"
| "later (c # cs) = cs"

definition created :: "(rule_args \<times> string) list \<Rightarrow> bot_state \<Rightarrow> bot_state" where
  "created cs st = fold (\<lambda>c s. snd (create_automation_rule (fst c) (snd c) s)) cs st"

text \<open>
  The \<^verbatim>\<open>for\<close> statement over the live dict. The iterator keeps the number of
  entries the dict had when the loop started (\<open>used\<close>) and its position \<open>i\<close>. Each
  \<^verbatim>\<open>next\<close>, also the one that would end the loop, first compares \<open>used\<close> with the
  dict's current size and raises \<^verbatim>\<open>RuntimeError\<close> when they differ; the
  \<^verbatim>\<open>for\<close> statement is outside the \<^verbatim>\<open>try\<close> of the loop body, so the exception
  leaves the handler. Otherwise it yields the entry at its position in the dict as it
  is then.
\<close>

function live_loop ::
  "(string \<times> rule \<Rightarrow> bot_state \<Rightarrow> bot_state) \<Rightarrow> (string \<times> rule \<Rightarrow> bot_state \<Rightarrow> bool)
     \<Rightarrow> nat \<Rightarrow> nat \<Rightarrow> (rule_args \<times> string) list list \<Rightarrow> bot_state \<Rightarrow> exc option \<times> bot_state" where
  "live_loop step awaits used i calls st =
     (if length (automation_rules st) \<noteq> used then (Some RuntimeError, st)
      else if used \<le> i then (None, st)
      else
        live_loop step awaits used (i + 1) (later calls)
          (if awaits (automation_rules st ! i) st
           then created (arrivals calls) (step (automation_rules st ! i) st)
           else step (automation_rules st ! i) st))"
  by pat_completeness auto

termination
  by (relation "measure (\<lambda>(step, awaits, used, i, calls, st). used - i)") auto

declare live_loop.simps [simp del]

text \<open>The three handlers over the live registry: the exception that leaves the handler,
  if any, and the state.\<close>

definition on_member_join_live ::
  "('f, 'm) runtime_scheme \<Rightarrow> member \<Rightarrow> (rule_args \<times> string) list list \<Rightarrow> bot_state
     \<Rightarrow> exc option \<times> bot_state" where
  "on_member_join_live rt m calls st =
     (if \<not> discord_client st then (None, st)
      else live_loop (member_join_rule rt m) (\<lambda>p. member_join_awaits rt m (snd p))
             (length (automation_rules st)) 0 calls st)"

definition on_reaction_add_live ::
  "('f, 'm) runtime_scheme \<Rightarrow> reaction_event \<Rightarrow> (rule_args \<times> string) list list \<Rightarrow> bot_state
     \<Rightarrow> exc option \<times> bot_state" where
  "on_reaction_add_live rt ev calls st =
     (if \<not> discord_client st then (None, st)
      else if user_bot ev then (None, st)
      else if \<not> in_text_channel ev then (None, st)
      else
        (case api (FetchMember (guild_id ev) (user_id ev)) st of
           Inl e \<Rightarrow> (None, st)
         | Inr _ \<Rightarrow>
             live_loop (reaction_add_rule rt ev (member_roles (world st) (guild_id ev, user_id ev)))
               (\<lambda>p. reaction_add_awaits rt ev (member_roles (world st) (guild_id ev, user_id ev)) (snd p))
               (length (automation_rules st)) 0 calls st))"

definition on_reaction_remove_live ::
  "('f, 'm) runtime_scheme \<Rightarrow> reaction_event \<Rightarrow> (rule_args \<times> string) list list \<Rightarrow> bot_state
     \<Rightarrow> exc option \<times> bot_state" where
  "on_reaction_remove_live rt ev calls st =
     (if \<not> discord_client st then (None, st)
      else if user_bot ev then (None, st)
      else if \<not> in_text_channel ev then (None, st)
      else
        (case api (FetchMember (guild_id ev) (user_id ev)) st of
           Inl e \<Rightarrow> (None, st)
         | Inr _ \<Rightarrow>
             live_loop (reaction_remove_rule rt ev (member_roles (world st) (guild_id ev, user_id ev)))
               (\<lambda>p. reaction_remove_awaits rt ev (member_roles (world st) (guild_id ev, user_id ev)) (snd p))
               (length (automation_rules st)) 0 calls st))"

section \<open>The task scheduler\<close>

definition next_scheduled_task_id :: "bot_state \<Rightarrow> string \<times> bot_state" where
  "next_scheduled_task_id st =
     (let n = scheduled_task_counter st + 1
      in (str_nat n, st\<lparr>scheduled_task_counter := n\<rparr>))"

text \<open>
  The \<^verbatim>\<open>schedule_task\<close> tool. \<open>resolved\<close> is what \<^verbatim>\<open>resolve_run_at(arguments)\<close>
  gives: the time to run at, or the exception it raises; timestamps are integers. The
  allow-list is checked first, then the time is resolved, and only then is the counter
  advanced and the entry stored, in status \<^verbatim>\<open>scheduled\<close>.
\<close>

definition store_task :: "string \<Rightarrow> (string \<times> pyval) list \<Rightarrow> int \<Rightarrow> int \<Rightarrow> bot_state \<Rightarrow> string \<times> bot_state" where
  "store_task ttype pl due now st =
     (let (tid, st1) = next_scheduled_task_id st;
          t = \<lparr>task_ident = tid, task_type = ttype, run_at = due, task_created_at = now,
               status = Scheduled, payload = pl, task_result = None, task_error = None\<rparr>
      in (tid, st1\<lparr>scheduled_tasks := (scheduled_tasks st1)(tid \<mapsto> t)\<rparr>))"

definition schedule_task ::
  "string \<Rightarrow> (string \<times> pyval) list option \<Rightarrow> exc + int \<Rightarrow> int \<Rightarrow> bot_state
     \<Rightarrow> exc + string \<times> bot_state" where
  "schedule_task ttype task_payload resolved now st =
     (let pl = (case task_payload of None \<Rightarrow> [] | Some p \<Rightarrow> p) in
      if ttype \<notin> set [''send_message'', ''bulk_add_roles'', ''bulk_modify_members'']
      then Inl ValueError
      else bind_exc resolved (\<lambda>due. Inr (store_task ttype pl due now st)))"

text \<open>The \<^verbatim>\<open>send_scheduled_message\<close> tool stores a \<^verbatim>\<open>send_message\<close> task.\<close>

definition send_scheduled_message ::
  "pyval \<Rightarrow> pyval \<Rightarrow> exc + int \<Rightarrow> int \<Rightarrow> bot_state \<Rightarrow> exc + string \<times> bot_state" where
  "send_scheduled_message channel_id content resolved now st =
     bind_exc resolved (\<lambda>due.
       Inr (store_task ''send_message'' [(''channel_id'', channel_id), (''content'', content)]
              due now st))"

text \<open>
  \<^verbatim>\<open>run_scheduled_task\<close> after its sleep (which lasts
  \<^verbatim>\<open>max(0, run_at - now)\<close> seconds and touches no state), in the two parts that the
  \<^verbatim>\<open>await task_callable()\<close> separates. \<open>run_begin\<close> looks the entry up and returns
  \<open>None\<close> when it is gone (the early \<^verbatim>\<open>return\<close>), else marks it \<^verbatim>\<open>running\<close>.
  \<open>run_finish\<close> takes the callable's outcome: the texts of the returned list, or the
  exception raised. The callable is \<^verbatim>\<open>call_tool(task_type, payload)\<close>.
\<close>

definition run_begin :: "string \<Rightarrow> bot_state \<Rightarrow> bot_state option" where
  "run_begin tid st =
     (case scheduled_tasks st tid of
        None \<Rightarrow> None
      | Some t \<Rightarrow> Some (st\<lparr>scheduled_tasks := (scheduled_tasks st)(tid \<mapsto> t\<lparr>status := Running\<rparr>)\<rparr>))"

definition run_finish :: "string \<Rightarrow> exc + string list \<Rightarrow> bot_state \<Rightarrow> bot_state" where
  "run_finish tid outcome st =
     (case scheduled_tasks st tid of
        None \<Rightarrow> st
      | Some t \<Rightarrow>
          (case outcome of
             Inr res \<Rightarrow>
               st\<lparr>scheduled_tasks := (scheduled_tasks st)(tid \<mapsto>
                 (case res of
                    [] \<Rightarrow> t\<lparr>status := Completed\<rparr>
                  | x # _ \<Rightarrow> t\<lparr>status := Completed, task_result := Some x\<rparr>))\<rparr>
           | Inl e \<Rightarrow>
               log_error (''Scheduled task failed: '' @ tid) e
                 (st\<lparr>scheduled_tasks := (scheduled_tasks st)(tid \<mapsto>
                    t\<lparr>status := Failed, task_error := Some e\<rparr>)\<rparr>)))"

text \<open>The whole coroutine, run without interleaving: the callable acts on the platform.\<close>

definition run_scheduled_task ::
  "string \<Rightarrow> (platform \<Rightarrow> (exc + string list) \<times> platform) \<Rightarrow> bot_state \<Rightarrow> bot_state" where
  "run_scheduled_task tid task_callable st =
     (case run_begin tid st of
        None \<Rightarrow> st
      | Some st1 \<Rightarrow>
          (let (outcome, w) = task_callable (world st1)
           in run_finish tid outcome (st1\<lparr>world := w\<rparr>)))"

section \<open>Pattern detection and auto-moderation\<close>

text \<open>A message of the scanned window, with the attributes the scan reads.\<close>

record message =
  msg_id :: int
  author_id :: int
  author_is_member :: bool
  msg_content :: string
  mentions :: nat
  role_mentions :: nat

text \<open>\<^verbatim>\<open>repeated_message\<close>: a counter keyed by author and normalised content, then
  every message whose key was counted at least \<open>threshold\<close> times.\<close>

fun count_repeats ::
  "('f, 'm) runtime_scheme \<Rightarrow> message list \<Rightarrow> (int \<times> string \<Rightarrow> nat) \<Rightarrow> (int \<times> string \<Rightarrow> nat)" where
  "count_repeats rt [] counts = counts"
| "count_repeats rt (m # ms) counts =
     (let c = lower rt (strip rt (msg_content m)) in
      if c \<noteq> [] then count_repeats rt ms (counts((author_id m, c) := counts (author_id m, c) + 1))
      else count_repeats rt ms counts)"

definition repeated_message :: "('f, 'm) runtime_scheme \<Rightarrow> int \<Rightarrow> message list \<Rightarrow> message list" where
  "repeated_message rt threshold messages =
     (let counts = count_repeats rt messages (\<lambda>k. 0) in
      filter (\<lambda>m. let c = lower rt (strip rt (msg_content m)) in
                   c \<noteq> [] \<and> threshold \<le> int (counts (author_id m, c))) messages)"

text \<open>\<^verbatim>\<open>len(re.findall(r"https?://", content))\<close>: matches found left to right, each
  search resuming after the previous match.\<close>

function count_links :: "string \<Rightarrow> nat" where
  "count_links [] = 0"
| "count_links (c # cs) =
     (if is_prefix ''http://'' (c # cs) then Suc (count_links (drop 7 (c # cs)))
      else if is_prefix ''https://'' (c # cs) then Suc (count_links (drop 8 (c # cs)))
      else count_links cs)"
  by pat_completeness auto
termination
  by (relation "measure length") auto

definition link_spam :: "int \<Rightarrow> message list \<Rightarrow> message list" where
  "link_spam threshold messages =
     filter (\<lambda>m. threshold \<le> int (count_links (msg_content m))) messages"

definition mention_spam :: "int \<Rightarrow> message list \<Rightarrow> message list" where
  "mention_spam threshold messages =
     filter (\<lambda>m. threshold \<le> int (mentions m + role_mentions m)) messages"

text \<open>\<^verbatim>\<open>a / b\<close> on integers raises \<^verbatim>\<open>ZeroDivisionError\<close> for a zero divisor.\<close>

definition py_truediv :: "('f, 'm) runtime_scheme \<Rightarrow> nat \<Rightarrow> nat \<Rightarrow> exc + 'f" where
  "py_truediv rt a b = (if b = 0 then Inl ZeroDivisionError else Inr (truediv rt a b))"

text \<open>\<^verbatim>\<open>caps_spam\<close>, as the loop that appends to \<^verbatim>\<open>matches\<close>; an exception
  raised by the division would leave the loop.\<close>

fun caps_spam ::
  "('f, 'm) runtime_scheme \<Rightarrow> 'f \<Rightarrow> int \<Rightarrow> message list \<Rightarrow> message list \<Rightarrow> exc + message list" where
  "caps_spam rt caps_ratio min_length [] matches = Inr matches"
| "caps_spam rt caps_ratio min_length (m # ms) matches =
     (let letters = filter (isalpha rt) (msg_content m) in
      if letters = [] then caps_spam rt caps_ratio min_length ms matches
      else
        (case py_truediv rt (length (filter (isupper rt) letters)) (length letters) of
           Inl e \<Rightarrow> Inl e
         | Inr ratio \<Rightarrow>
             if float_ge rt ratio caps_ratio \<and> min_length \<le> int (length (msg_content m))
             then caps_spam rt caps_ratio min_length ms (matches @ [m])
             else caps_spam rt caps_ratio min_length ms matches))"

text \<open>
  The arguments of \<^verbatim>\<open>auto_moderate_by_pattern\<close>, typed as the tool's input schema
  types them; an absent optional argument is \<open>None\<close> and takes the default of its
  \<^verbatim>\<open>arguments.get\<close>. The default ratio \<^verbatim>\<open>0.7\<close> is the float \<^verbatim>\<open>7 / 10\<close>.
\<close>

record 'f moderate_args =
  arg_pattern_type :: string
  arg_repeat_threshold :: "'f number option"
  arg_link_threshold :: "'f number option"
  arg_mention_threshold :: "'f number option"
  arg_caps_ratio_threshold :: "'f number option"
  arg_min_length :: "'f number option"
  arg_action :: "string option"
  arg_timeout_minutes :: "'f number option"
  arg_dry_run :: "bool option"

text \<open>
  The branch of the pattern converts its thresholds with \<^verbatim>\<open>int(...)\<close> and
  \<^verbatim>\<open>float(...)\<close> before it reads a message; an exception of a conversion leaves
  the tool.
\<close>

definition detect ::
  "('f, 'm) runtime_scheme \<Rightarrow> string \<Rightarrow> ('f, 'n) moderate_args_scheme \<Rightarrow> message list
     \<Rightarrow> exc + message list" where
  "detect rt pattern args messages =
     (if pattern = ''repeated_message'' then
        bind_exc (number_int rt (case arg_repeat_threshold args of None \<Rightarrow> NInt 3 | Some n \<Rightarrow> n))
          (\<lambda>repeat_threshold. Inr (repeated_message rt repeat_threshold messages))
      else if pattern = ''link_spam'' then
        bind_exc (number_int rt (case arg_link_threshold args of None \<Rightarrow> NInt 3 | Some n \<Rightarrow> n))
          (\<lambda>link_threshold. Inr (link_spam link_threshold messages))
      else if pattern = ''mention_spam'' then
        bind_exc (number_int rt (case arg_mention_threshold args of None \<Rightarrow> NInt 5 | Some n \<Rightarrow> n))
          (\<lambda>mention_threshold. Inr (mention_spam mention_threshold messages))
      else if pattern = ''caps_spam'' then
        bind_exc (number_float rt (case arg_caps_ratio_threshold args of
                                    None \<Rightarrow> NFloat (truediv rt 7 10) | Some x \<Rightarrow> x))
          (\<lambda>caps_ratio.
        bind_exc (number_int rt (case arg_min_length args of None \<Rightarrow> NInt 15 | Some n \<Rightarrow> n))
          (\<lambda>min_length. caps_spam rt caps_ratio min_length messages []))
      else Inl ValueError)"

text \<open>The running totals of the action loop: \<^verbatim>\<open>applied\<close>, \<^verbatim>\<open>errors\<close>,
  \<^verbatim>\<open>timed_out\<close>, with the state.\<close>

record moderation =
  applied :: nat
  errors :: "(int \<times> exc) list"
  timed_out :: "int list"
  mod_state :: bot_state

definition delete_message :: "int \<Rightarrow> bot_state \<Rightarrow> exc + bot_state" where
  "delete_message mid st =
     bind_exc (api (DeleteMessage mid) st) (\<lambda>_.
       Inr (st\<lparr>world := (world st)\<lparr>deleted := deleted (world st) @ [mid]\<rparr>\<rparr>))"

definition timeout_member :: "int \<Rightarrow> bot_state \<Rightarrow> exc + bot_state" where
  "timeout_member uid st =
     bind_exc (api (TimeoutMember uid) st) (\<lambda>_.
       Inr (st\<lparr>world := (world st)\<lparr>timeouts := timeouts (world st) @ [uid]\<rparr>\<rparr>))"

text \<open>The body of the \<^verbatim>\<open>try\<close> for one matched message. For a timeout the end of
  the timeout is computed, which may raise, before the platform is called.\<close>

definition moderate_action ::
  "('f, 'm) runtime_scheme \<Rightarrow> string \<Rightarrow> 'f number option \<Rightarrow> message \<Rightarrow> moderation
     \<Rightarrow> exc + moderation" where
  "moderate_action rt action minutes m acc =
     (if action = ''delete'' then
        bind_exc (delete_message (msg_id m) (mod_state acc)) (\<lambda>st'.
          Inr (acc\<lparr>mod_state := st', applied := applied acc + 1\<rparr>))
      else if action = ''timeout'' then
        (case minutes of
           None \<Rightarrow> Inl ValueError
         | Some mins \<Rightarrow>
             if author_is_member m \<and> author_id m \<notin> set (timed_out acc) then
               (case timedelta_error rt mins of
                  Some e \<Rightarrow> Inl e
                | None \<Rightarrow>
                    bind_exc (timeout_member (author_id m) (mod_state acc)) (\<lambda>st'.
                      Inr (acc\<lparr>mod_state := st', timed_out := timed_out acc @ [author_id m],
                               applied := applied acc + 1\<rparr>)))
             else Inr acc)
      else Inr acc)"

definition moderate_message ::
  "('f, 'm) runtime_scheme \<Rightarrow> string \<Rightarrow> 'f number option \<Rightarrow> message \<Rightarrow> moderation
     \<Rightarrow> moderation" where
  "moderate_message rt action minutes m acc =
     (case moderate_action rt action minutes m acc of
        Inr acc' \<Rightarrow> acc'
      | Inl e \<Rightarrow> acc\<lparr>errors := errors acc @ [(msg_id m, e)]\<rparr>)"

text \<open>What the tool reports: the matches, the action, the flag, the count applied and
  the errors; the tool's text shows them.\<close>

record report =
  matched :: "message list"
  rep_action :: string
  rep_dry_run :: bool
  rep_applied :: nat
  rep_errors :: "(int \<times> exc) list"

text \<open>The action loop, entered only for an action other than \<^verbatim>\<open>report\<close> and a
  false \<^verbatim>\<open>dry_run\<close>.\<close>

definition apply_actions ::
  "('f, 'm) runtime_scheme \<Rightarrow> string \<Rightarrow> bool \<Rightarrow> 'f number option \<Rightarrow> message list
     \<Rightarrow> bot_state \<Rightarrow> moderation" where
  "apply_actions rt action dry minutes matches st =
     (let start = \<lparr>applied = 0, errors = [], timed_out = [], mod_state = st\<rparr> in
      if action \<noteq> ''report'' \<and> \<not> dry
      then fold (moderate_message rt action minutes) matches start
      else start)"

text \<open>
  \<^verbatim>\<open>auto_moderate_by_pattern\<close> from the fetched window \<open>messages\<close> on: detection,
  the check of the action, then the action loop.
\<close>

definition auto_moderate_by_pattern ::
  "('f, 'm) runtime_scheme \<Rightarrow> ('f, 'n) moderate_args_scheme \<Rightarrow> message list \<Rightarrow> bot_state
     \<Rightarrow> exc + report \<times> bot_state" where
  "auto_moderate_by_pattern rt args messages st =
     (let pattern = lower rt (strip rt (arg_pattern_type args));
          action = lower rt (strip rt (case arg_action args of None \<Rightarrow> ''report'' | Some a \<Rightarrow> a));
          dry = (case arg_dry_run args of None \<Rightarrow> True | Some b \<Rightarrow> b)
      in
      bind_exc (detect rt pattern args messages) (\<lambda>matches.
        if action \<notin> set [''delete'', ''timeout'', ''report''] then Inl ValueError
        else
          (let acc = apply_actions rt action dry (arg_timeout_minutes args) matches st
           in Inr (\<lparr>matched = matches, rep_action = action, rep_dry_run = dry,
                     rep_applied = applied acc, rep_errors = errors acc\<rparr>, mod_state acc))))"

section \<open>The running system\<close>

text \<open>
  Handlers and tools run as coroutines of one event loop. A handler or tool call is one
  step; the coroutine that \<^verbatim>\<open>asyncio.create_task(run_scheduled_task(...))\<close> starts
  for a task takes two: \<open>Wake\<close>, when its sleep ends, and \<open>Finish\<close>, when the awaited
  call returns or raises. Between the two any other step can happen, among them changes
  of the platform (the effects of the awaited tool call are such changes). Every tool
  runs under \<^verbatim>\<open>require_discord_client\<close>.
\<close>

datatype phase = Sleeping | Invoking

record system =
  bot :: bot_state
  coroutines :: "string \<rightharpoonup> phase"

datatype 'f input =
    OnReady string
  | OnDisconnect
  | MemberJoin member
  | ReactionAdd reaction_event
  | ReactionRemove reaction_event
  | CreateRule rule_args string
  | ScheduleTask string "(string \<times> pyval) list option" "exc + int" int
  | SendScheduledMessage pyval pyval "exc + int" int
  | AutoModerate "'f moderate_args" "message list"
  | Wake string
  | Finish string "exc + string list"
  | PlatformChange platform

definition spawn :: "system \<Rightarrow> exc + string \<times> bot_state \<Rightarrow> system" where
  "spawn s res =
     (case res of
        Inl e \<Rightarrow> s
      | Inr (tid, st') \<Rightarrow> \<lparr>bot = st', coroutines = (coroutines s)(tid \<mapsto> Sleeping)\<rparr>)"

fun exec :: "('f, 'm) runtime_scheme \<Rightarrow> 'f input \<Rightarrow> system \<Rightarrow> system" where
  "exec rt (OnReady nm) s =
     s\<lparr>bot := log_info (''Logged in as '' @ nm) ((bot s)\<lparr>discord_client := True\<rparr>)\<rparr>"
| "exec rt OnDisconnect s =
     s\<lparr>bot := (bot s)\<lparr>discord_client := False,
                        logged := logged (bot s) @ [LogWarning ''Discord bot disconnected'']\<rparr>\<rparr>"
| "exec rt (MemberJoin m) s = s\<lparr>bot := on_member_join rt m (bot s)\<rparr>"
| "exec rt (ReactionAdd ev) s = s\<lparr>bot := on_reaction_add rt ev (bot s)\<rparr>"
| "exec rt (ReactionRemove ev) s = s\<lparr>bot := on_reaction_remove rt ev (bot s)\<rparr>"
| "exec rt (CreateRule args now) s =
     (if \<not> discord_client (bot s) then s
      else s\<lparr>bot := snd (create_automation_rule args now (bot s))\<rparr>)"
| "exec rt (ScheduleTask ttype pl resolved now) s =
     (if \<not> discord_client (bot s) then s
      else spawn s (schedule_task ttype pl resolved now (bot s)))"
| "exec rt (SendScheduledMessage channel_id content resolved now) s =
     (if \<not> discord_client (bot s) then s
      else spawn s (send_scheduled_message channel_id content resolved now (bot s)))"
| "exec rt (AutoModerate args messages) s =
     (if \<not> discord_client (bot s) then s
      else
        (case auto_moderate_by_pattern rt args messages (bot s) of
           Inl e \<Rightarrow> s
         | Inr res \<Rightarrow> s\<lparr>bot := snd res\<rparr>))"
| "exec rt (Wake tid) s =
     (case coroutines s tid of
        Some Sleeping \<Rightarrow>
          (case run_begin tid (bot s) of
             None \<Rightarrow> s\<lparr>coroutines := (coroutines s)(tid := None)\<rparr>
           | Some st' \<Rightarrow> \<lparr>bot = st', coroutines = (coroutines s)(tid \<mapsto> Invoking)\<rparr>)
      | _ \<Rightarrow> s)"
| "exec rt (Finish tid outcome) s =
     (case coroutines s tid of
        Some Invoking \<Rightarrow>
          \<lparr>bot = run_finish tid outcome (bot s), coroutines = (coroutines s)(tid := None)\<rparr>
      | _ \<Rightarrow> s)"
| "exec rt (PlatformChange w) s = s\<lparr>bot := (bot s)\<lparr>world := w\<rparr>\<rparr>"

text \<open>At start the registries are empty, the counters zero and the client not ready.\<close>

definition initial :: "platform \<Rightarrow> system" where
  "initial w =
     \<lparr>bot = \<lparr>discord_client = False, automation_rules = [], automation_rule_counter = 0,
             scheduled_tasks = Map.empty, scheduled_task_counter = 0, logged = [], world = w\<rparr>,
      coroutines = Map.empty\<rparr>"

definition run :: "('f, 'm) runtime_scheme \<Rightarrow> 'f input list \<Rightarrow> system \<Rightarrow> system" where
  "run rt inputs s = fold (exec rt) inputs s"

definition status_of :: "system \<Rightarrow> string \<Rightarrow> task_status option" where
  "status_of s tid = map_option status (scheduled_tasks (bot s) tid)"

text \<open>The changes of a task's status that the lifecycle allows in one step: none, its
  creation as \<open>Scheduled\<close>, and the three transitions.\<close>

fun lifecycle_step :: "task_status option \<Rightarrow> task_status option \<Rightarrow> bool" where
  "lifecycle_step None None = True"
| "lifecycle_step None (Some b) = (b = Scheduled)"
| "lifecycle_step (Some a) None = False"
| "lifecycle_step (Some Scheduled) (Some b) = (b = Scheduled \<or> b = Running)"
| "lifecycle_step (Some Running) (Some b) = (b = Running \<or> b = Completed \<or> b = Failed)"
| "lifecycle_step (Some Completed) (Some b) = (b = Completed)"
| "lifecycle_step (Some Failed) (Some b) = (b = Failed)"

section \<open>Message templates\<close>

text \<open>
  A template is text with placeholders. Its pieces of plain text hold no opening brace,
  so that every opening brace of the rendered template starts a placeholder.
\<close>

datatype piece = Lit string | User | Username | Server | Emoji

fun piece_text :: "piece \<Rightarrow> string" where
  "piece_text (Lit s) = s"
| "piece_text User = ''{user}''"
| "piece_text Username = ''{username}''"
| "piece_text Server = ''{server}''"
| "piece_text Emoji = ''{emoji}''"

definition render :: "piece list \<Rightarrow> string" where
  "render ps = concat (map piece_text ps)"

definition brace_free :: "string \<Rightarrow> bool" where
  "brace_free s = (CHR ''{'' \<notin> set s)"

fun plain :: "piece \<Rightarrow> bool" where
  "plain (Lit s) = brace_free s"
| "plain p = True"

text \<open>One \<^verbatim>\<open>replace\<close> of placeholder \<open>q\<close> by \<open>v\<close>, seen on a piece.\<close>

definition fill :: "piece \<Rightarrow> string \<Rightarrow> piece \<Rightarrow> piece" where
  "fill q v p = (if p = q then Lit v else p)"

text \<open>What a member-join message and a reaction message put in each piece's place.\<close>

fun join_value :: "member \<Rightarrow> piece \<Rightarrow> string" where
  "join_value m (Lit s) = s"
| "join_value m User = member_mention m"
| "join_value m Username = member_name m"
| "join_value m Server = member_guild_name m"
| "join_value m Emoji = ''{emoji}''"

fun reaction_value :: "reaction_event \<Rightarrow> piece \<Rightarrow> string" where
  "reaction_value ev (Lit s) = s"
| "reaction_value ev User = user_mention ev"
| "reaction_value ev Username = user_name ev"
| "reaction_value ev Server = ''{server}''"
| "reaction_value ev Emoji = emoji_str ev"

section \<open>A runtime for ASCII text\<close>

text \<open>An instance of the runtime's builtins on ASCII text, with exact rationals for
  floats; the examples below run on it. Its conversion of an int to a float overflows
  from \<open>2 ^ 1024\<close> on and its timeouts from a thousand million minutes on.\<close>

definition ascii_isupper :: "char \<Rightarrow> bool" where
  "ascii_isupper c = (65 \<le> (of_char c :: nat) \<and> (of_char c :: nat) \<le> 90)"

definition ascii_islower :: "char \<Rightarrow> bool" where
  "ascii_islower c = (97 \<le> (of_char c :: nat) \<and> (of_char c :: nat) \<le> 122)"

definition ascii_isalpha :: "char \<Rightarrow> bool" where
  "ascii_isalpha c = (ascii_isupper c \<or> ascii_islower c)"

definition ascii_isspace :: "char \<Rightarrow> bool" where
  "ascii_isspace c = ((of_char c :: nat) \<in> set [9, 10, 11, 12, 13, 28, 29, 30, 31, 32])"

definition ascii_strip :: "string \<Rightarrow> string" where
  "ascii_strip s = rev (dropWhile ascii_isspace (rev (dropWhile ascii_isspace s)))"

definition ascii_lower :: "string \<Rightarrow> string" where
  "ascii_lower s = map (\<lambda>c. if ascii_isupper c then char_of ((of_char c :: nat) + 32) else c) s"

fun digits_value :: "string \<Rightarrow> nat \<Rightarrow> nat option" where
  "digits_value [] acc = Some acc"
| "digits_value (c # cs) acc =
     (if 48 \<le> (of_char c :: nat) \<and> (of_char c :: nat) \<le> 57
      then digits_value cs (10 * acc + ((of_char c :: nat) - 48))
      else None)"

definition ascii_int_of_str :: "string \<Rightarrow> int option" where
  "ascii_int_of_str s =
     (case ascii_strip s of
        [] \<Rightarrow> None
      | c # cs \<Rightarrow>
          if c = CHR ''-'' then (if cs = [] then None else map_option (\<lambda>n. - int n) (digits_value cs 0))
          else if c = CHR ''+'' then (if cs = [] then None else map_option int (digits_value cs 0))
          else map_option int (digits_value (c # cs) 0))"

definition ascii_runtime :: "rat runtime" where
  "ascii_runtime =
     \<lparr>int_of_str = ascii_int_of_str, isalpha = ascii_isalpha, isupper = ascii_isupper,
      strip = ascii_strip, lower = ascii_lower,
      truediv = (\<lambda>a b. of_nat a / of_nat b), float_ge = (\<lambda>x y. y \<le> x),
      int_to_float = (\<lambda>i. if \<bar>i\<bar> < 2 ^ 1024 then Inr (of_int i) else Inl OverflowError),
      float_to_int = (\<lambda>x. Inr (if 0 \<le> x then \<lfloor>x\<rfloor> else \<lceil>x\<rceil>)),
      timedelta_error = (\<lambda>n. case n of
                           NInt i \<Rightarrow> if \<bar>i\<bar> < 1000000000 then None else Some OverflowError
                         | NFloat x \<Rightarrow> if \<bar>x\<bar> < 1000000000 then None else Some OverflowError)\<rparr>"

section \<open>Frames and examples\<close>

text \<open>Two states agree on everything but the log and the platform: the client
  reference, both registries and both counters are the same.\<close>

definition same_registries :: "bot_state \<Rightarrow> bot_state \<Rightarrow> bool" where
  "same_registries st st' =
     (discord_client st' = discord_client st
      \<and> automation_rules st' = automation_rules st
      \<and> automation_rule_counter st' = automation_rule_counter st
      \<and> scheduled_tasks st' = scheduled_tasks st
      \<and> scheduled_task_counter st' = scheduled_task_counter st)"

text \<open>Example data: a platform where guild 7 has role 5 and only fetching channel 9
  fails, a member and a reaction of user 42, and a ready bot with given rules.\<close>

definition quiet :: platform where
  "quiet =
     \<lparr>fails = (\<lambda>c. if c = FetchChannel 9 then Some ''Unknown Channel'' else None),
      guild_roles = (\<lambda>g. if g = 7 then [(5, ''member'')] else []),
      member_roles = (\<lambda>k. []),
      outbox = [], deleted = [], timeouts = []\<rparr>"

definition ready :: "(string \<times> rule) list \<Rightarrow> bot_state" where
  "ready rules =
     \<lparr>discord_client = True, automation_rules = rules, automation_rule_counter = length rules,
      scheduled_tasks = Map.empty, scheduled_task_counter = 0, logged = [], world = quiet\<rparr>"

definition bob :: member where
  "bob = \<lparr>member_id = 42, member_name = ''bob'', member_mention = ''<@42>'',
          member_guild_id = 7, member_guild_name = ''Guild''\<rparr>"

definition thumbs_up :: reaction_event where
  "thumbs_up =
     \<lparr>user_id = 42, user_bot = False, user_name = ''bob'', user_mention = ''<@42>'',
      in_text_channel = True, guild_id = 7, guild_name = ''Guild'', message_id = 100,
      emoji_str = ''+1''\<rparr>"

definition message_rule :: "string \<Rightarrow> string \<Rightarrow> string \<Rightarrow> string \<Rightarrow> rule" where
  "message_rule rid trigger channel body =
     \<lparr>rule_ident = rid, server_id = None, rule_name = ''message'', trigger_type = trigger,
      trigger_value = None, action_type = ''send_message'',
      action_payload = [(''channel_id'', PStr channel), (''content'', PStr body)],
      enabled = True, created_at = ''2024-01-01T00:00:00+00:00''\<rparr>"

definition role_rule :: "string \<Rightarrow> string \<Rightarrow> (string \<times> pyval) list \<Rightarrow> rule" where
  "role_rule rid trigger pl =
     \<lparr>rule_ident = rid, server_id = None, rule_name = ''role'', trigger_type = trigger,
      trigger_value = None, action_type = ''assign_role'', action_payload = pl,
      enabled = True, created_at = ''2024-01-01T00:00:00+00:00''\<rparr>"

text \<open>A rule created later, a registry of two welcome rules (the channel of the first
  cannot be fetched), and a bot whose platform refuses to add role 5 to user 42, who
  holds it.\<close>

definition later_rule :: rule_args where
  "later_rule =
     \<lparr>arg_server_id = None, arg_name = ''later'', arg_trigger_type = ''member_join'',
      arg_trigger_value = None, arg_action_type = ''log'', arg_action_payload = None,
      arg_enabled = None\<rparr>"

definition two_welcomes :: "(string \<times> rule) list" where
  "two_welcomes =
     [(''1'', message_rule ''1'' ''member_join'' ''9'' ''Hello''),
      (''2'', message_rule ''2'' ''member_join'' ''1'' ''Hi'')]"

definition held_refused :: "(string \<times> rule) list \<Rightarrow> bot_state" where
  "held_refused rules =
     (ready rules)\<lparr>world := quiet
        \<lparr>fails := (\<lambda>c. if c = AddRoles 7 42 5 then Some ''Missing Permissions'' else None),
         member_roles := (\<lambda>k. if k = (7, 42) then [5] else [])\<rparr>\<rparr>"

definition plain_message :: "int \<Rightarrow> int \<Rightarrow> string \<Rightarrow> message" where
  "plain_message i a body =
     \<lparr>msg_id = i, author_id = a, author_is_member = True, msg_content = body,
      mentions = 0, role_mentions = 0\<rparr>"

definition caps_delete :: "rat moderate_args" where
  "caps_delete =
     \<lparr>arg_pattern_type = ''Caps_Spam '', arg_repeat_threshold = None, arg_link_threshold = None,
      arg_mention_threshold = None, arg_caps_ratio_threshold = None,
      arg_min_length = Some (NInt 5),
      arg_action = Some ''delete'', arg_timeout_minutes = None, arg_dry_run = None\<rparr>"

text \<open>The error entries of a log.\<close>

fun is_error :: "log_entry \<Rightarrow> bool" where
  "is_error (LogError msg e) = True"
| "is_error (LogInfo msg) = False"
| "is_error (LogWarning msg) = False"

text \<open>
  The caps criterion in the spec's words: the ratio of uppercase letters among the
  alphabetic characters meets the threshold, the whole content has the minimum length,
  and a message without letters is exempt.
\<close>

definition caps_flagged :: "('f, 'm) runtime_scheme \<Rightarrow> 'f \<Rightarrow> int \<Rightarrow> message \<Rightarrow> bool" where
  "caps_flagged rt caps_ratio min_length m =
     (let letters = filter (isalpha rt) (msg_content m) in
      letters \<noteq> []
      \<and> float_ge rt (truediv rt (length (filter (isupper rt) letters)) (length letters)) caps_ratio
      \<and> min_length \<le> int (length (msg_content m)))"

text \<open>
  The invariant of the running system: a task's coroutine sleeps exactly while the task
  is \<open>Scheduled\<close> and awaits the call exactly while it is \<open>Running\<close>, and every stored
  task has an identifier the counter has already issued.
\<close>

definition coherent :: "system \<Rightarrow> bool" where
  "coherent s =
     (\<forall>tid.
        (coroutines s tid = Some Sleeping) = (status_of s tid = Some Scheduled)
        \<and> (coroutines s tid = Some Invoking) = (status_of s tid = Some Running)
        \<and> (scheduled_tasks (bot s) tid = None
            \<or> (\<exists>k. k \<le> scheduled_task_counter (bot s) \<and> tid = str_nat k)))"

section \<open>Helper lemmas\<close>

lemma bind_exc_Inr: "bind_exc x f = Inr y \<Longrightarrow> \<exists>v. x = Inr v \<and> f v = Inr y"
  by (cases x) (simp_all add: bind_exc_def)

lemma ascii_int_examples:
  "ascii_int_of_str ''9'' = Some 9" "ascii_int_of_str ''1'' = Some 1"
  "ascii_int_of_str ''5'' = Some 5" "ascii_int_of_str ''abc'' = None"
  by (simp_all add: ascii_int_of_str_def ascii_strip_def ascii_isspace_def)

lemmas example_defs =
  message_rule_def role_rule_def ready_def quiet_def bob_def thumbs_up_def ascii_runtime_def
  member_join_guard_def reaction_guard_def reaction_remove_guard_def remove_on_unreact_def
  message_mismatch_def member_join_action_def reaction_add_action_def reaction_remove_action_def
  bind_exc_def fetch_channel_def api_def payload_content_def get_role_def

subsection \<open>The handlers change only the log and the platform\<close>

lemma same_registries_refl [simp]: "same_registries st st"
  by (simp add: same_registries_def)

lemma same_registries_trans:
  "same_registries a b \<Longrightarrow> same_registries b c \<Longrightarrow> same_registries a c"
  by (simp add: same_registries_def)

lemma same_registries_log_info [simp]:
  "same_registries st (log_info msg st') = same_registries st st'"
  by (simp add: same_registries_def log_info_def)

lemma same_registries_log_error [simp]:
  "same_registries st (log_error msg e st') = same_registries st st'"
  by (simp add: same_registries_def log_error_def)

lemma channel_send_frame: "channel_send c t d f st = Inr st' \<Longrightarrow> same_registries st st'"
  by (auto simp: channel_send_def same_registries_def dest!: bind_exc_Inr)

lemma add_roles_frame: "add_roles g u r st = Inr st' \<Longrightarrow> same_registries st st'"
  by (auto simp: add_roles_def grant_def same_registries_def Let_def dest!: bind_exc_Inr)

lemma remove_roles_frame: "remove_roles g u r st = Inr st' \<Longrightarrow> same_registries st st'"
  by (auto simp: remove_roles_def revoke_def same_registries_def dest!: bind_exc_Inr)

lemma member_join_action_frame:
  "member_join_action rt m rid r st = Inr st' \<Longrightarrow> same_registries st st'"
  unfolding member_join_action_def
  by (auto split: if_splits option.splits dest!: bind_exc_Inr)
    (erule channel_send_frame add_roles_frame)+

lemma reaction_add_action_frame:
  "reaction_add_action rt ev held rid r st = Inr st' \<Longrightarrow> same_registries st st'"
  unfolding reaction_add_action_def
  by (auto split: if_splits option.splits dest!: bind_exc_Inr)
    (erule channel_send_frame add_roles_frame)+

lemma reaction_remove_action_frame:
  "reaction_remove_action rt ev held rid r st = Inr st' \<Longrightarrow> same_registries st st'"
  unfolding reaction_remove_action_def
  by (auto split: if_splits option.splits dest!: bind_exc_Inr)
    (erule remove_roles_frame)

lemma member_join_rule_frame: "same_registries st (member_join_rule rt m p st)"
  by (auto simp: member_join_rule_def split: sum.splits dest: member_join_action_frame)

lemma reaction_add_rule_frame: "same_registries st (reaction_add_rule rt ev held p st)"
  by (auto simp: reaction_add_rule_def split: sum.splits dest: reaction_add_action_frame)

lemma reaction_remove_rule_frame: "same_registries st (reaction_remove_rule rt ev held p st)"
  by (auto simp: reaction_remove_rule_def split: sum.splits dest: reaction_remove_action_frame)

lemma fold_frame:
  assumes "\<And>p s. same_registries s (f p s)"
  shows "same_registries st (fold f ps st)"
proof (induction ps arbitrary: st)
  case Nil
  show ?case by simp
next
  case (Cons p ps)
  have "same_registries st (f p st)" by (rule assms)
  moreover have "same_registries (f p st) (fold f ps (f p st))" by (rule Cons.IH)
  ultimately show ?case by (auto intro: same_registries_trans)
qed

lemma on_member_join_frame: "same_registries st (on_member_join rt m st)"
  by (simp add: on_member_join_def fold_frame member_join_rule_frame)

lemma on_reaction_add_frame: "same_registries st (on_reaction_add rt ev st)"
  by (simp add: on_reaction_add_def fold_frame reaction_add_rule_frame split: sum.splits)

lemma on_reaction_remove_frame: "same_registries st (on_reaction_remove rt ev st)"
  by (simp add: on_reaction_remove_def fold_frame reaction_remove_rule_frame split: sum.splits)

subsection \<open>Rules that are skipped\<close>

lemma member_join_rule_disabled: "\<not> enabled (snd p) \<Longrightarrow> member_join_rule rt m p st = st"
  by (simp add: member_join_rule_def member_join_guard_def)

lemma reaction_add_rule_disabled:
  "\<not> enabled (snd p) \<Longrightarrow> reaction_add_rule rt ev held p st = st"
  by (simp add: reaction_add_rule_def reaction_guard_def)

lemma reaction_remove_rule_disabled:
  "\<not> enabled (snd p) \<Longrightarrow> reaction_remove_rule rt ev held p st = st"
  by (simp add: reaction_remove_rule_def reaction_remove_guard_def reaction_guard_def)

lemma fold_skip:
  assumes "\<And>p s. \<not> P p \<Longrightarrow> f p s = s"
  shows "fold f (filter P ps) s = fold f ps s"
  using assms by (induction ps arbitrary: s) auto

section \<open>The handlers' loops and the run step\<close>

subsection \<open>The loop over the live registry\<close>

lemma live_loop_changed:
  "length (automation_rules st) \<noteq> used \<Longrightarrow>
     live_loop step awaits used i calls st = (Some RuntimeError, st)"
  by (subst live_loop.simps) simp

lemma live_loop_end:
  "length (automation_rules st) = used \<Longrightarrow> used \<le> i \<Longrightarrow>
     live_loop step awaits used i calls st = (None, st)"
  by (subst live_loop.simps) simp

lemma live_loop_next:
  "length (automation_rules st) = used \<Longrightarrow> i < used \<Longrightarrow>
     live_loop step awaits used i calls st =
       live_loop step awaits used (Suc i) (later calls)
         (if awaits (automation_rules st ! i) st
          then created (arrivals calls) (step (automation_rules st ! i) st)
          else step (automation_rules st ! i) st)"
  by (subst live_loop.simps) simp

lemma live_loop_quiescent:
  assumes frame: "\<And>p s. automation_rules (step p s) = automation_rules s"
  shows "i \<le> length (automation_rules st) \<Longrightarrow>
     live_loop step awaits (length (automation_rules st)) i [] st
       = (None, fold step (drop i (automation_rules st)) st)"
proof (induction "length (automation_rules st) - i" arbitrary: i st)
  case 0
  then show ?case by (simp add: live_loop_end)
next
  case (Suc n)
  from Suc.hyps(2) have less: "i < length (automation_rules st)" by simp
  let ?p = "automation_rules st ! i"
  have same: "automation_rules (step ?p st) = automation_rules st" by (rule frame)
  have "live_loop step awaits (length (automation_rules st)) i [] st
      = live_loop step awaits (length (automation_rules (step ?p st))) (Suc i) [] (step ?p st)"
    using less by (simp add: live_loop_next [of st] created_def same)
  also have "\<dots> = (None, fold step (drop (Suc i) (automation_rules (step ?p st))) (step ?p st))"
    using Suc.hyps(2) less by (intro Suc.hyps(1)) (simp_all add: same)
  also have "\<dots> = (None, fold step (drop i (automation_rules st)) st)"
    using less by (simp add: same Cons_nth_drop_Suc [symmetric])
  finally show ?case .
qed

lemma on_member_join_live_quiescent:
  "on_member_join_live rt m [] st = (None, on_member_join rt m st)"
  using member_join_rule_frame [of _ rt m]
    live_loop_quiescent [of "member_join_rule rt m" 0 st "\<lambda>p. member_join_awaits rt m (snd p)"]
  by (simp add: on_member_join_live_def on_member_join_def same_registries_def)

lemma on_reaction_add_live_quiescent:
  "on_reaction_add_live rt ev [] st = (None, on_reaction_add rt ev st)"
  using reaction_add_rule_frame [of _ rt ev]
    live_loop_quiescent [of "reaction_add_rule rt ev (member_roles (world st) (guild_id ev, user_id ev))" 0 st
      "\<lambda>p. reaction_add_awaits rt ev (member_roles (world st) (guild_id ev, user_id ev)) (snd p)"]
  by (simp add: on_reaction_add_live_def on_reaction_add_def same_registries_def split: sum.splits)

lemma on_reaction_remove_live_quiescent:
  "on_reaction_remove_live rt ev [] st = (None, on_reaction_remove rt ev st)"
  using reaction_remove_rule_frame [of _ rt ev]
    live_loop_quiescent [of "reaction_remove_rule rt ev (member_roles (world st) (guild_id ev, user_id ev))" 0 st
      "\<lambda>p. reaction_remove_awaits rt ev (member_roles (world st) (guild_id ev, user_id ev)) (snd p)"]
  by (simp add: on_reaction_remove_live_def on_reaction_remove_def same_registries_def split: sum.splits)


lemma log_fields_world [simp]:
  "world (log_error msg e st) = world st"
  by (simp add: log_error_def)

lemma member_join_no_await:
  "\<not> member_join_awaits rt m (snd p) st \<Longrightarrow> world (member_join_rule rt m p st) = world st"
  by (auto simp: member_join_awaits_def member_join_rule_def member_join_action_def
      reaches_fetch_def named_role_def bind_exc_def log_info_def
      split: if_splits option.splits sum.splits)

lemma reaction_add_no_await:
  "\<not> reaction_add_awaits rt ev held (snd p) st \<Longrightarrow>
     world (reaction_add_rule rt ev held p st) = world st"
  by (auto simp: reaction_add_awaits_def reaction_add_rule_def reaction_add_action_def
      reaches_fetch_def named_role_def bind_exc_def log_info_def
      split: if_splits option.splits sum.splits)

lemma reaction_remove_no_await:
  "\<not> reaction_remove_awaits rt ev held (snd p) st \<Longrightarrow>
     world (reaction_remove_rule rt ev held p st) = world st"
  by (auto simp: reaction_remove_awaits_def reaction_remove_rule_def reaction_remove_action_def
      named_role_def bind_exc_def log_info_def
      split: if_splits option.splits sum.splits)

lemma str_nat_3: "str_nat (Suc (Suc (Suc 0))) = ''3''"
  by code_simp

lemma first_welcome_fails:
  "member_join_rule ascii_runtime bob (''1'', message_rule ''1'' ''member_join'' ''9'' ''Hello'')
       (ready two_welcomes)
     = log_error ''Error executing automation rule 1: '' (ApiError ''Unknown Channel'')
         (ready two_welcomes)"
  by (simp add: member_join_rule_def example_defs ascii_int_examples)

lemma first_welcome_awaits:
  "member_join_awaits ascii_runtime bob (message_rule ''1'' ''member_join'' ''9'' ''Hello'')
     (ready two_welcomes)"
  by (simp add: member_join_awaits_def reaches_fetch_def example_defs ascii_int_examples)

lemma later_rule_created:
  "automation_rules (created [(later_rule, now)]
       (log_error msg e (ready two_welcomes)))
     = two_welcomes @ [(''3'', \<lparr>rule_ident = ''3'', server_id = None, rule_name = ''later'',
          trigger_type = ''member_join'', trigger_value = None, action_type = ''log'',
          action_payload = [], enabled = True, created_at = now\<rparr>)]"
  "logged (created [(later_rule, now)] (log_error msg e (ready two_welcomes))) = [LogError msg e]"
  "world (created [(later_rule, now)] (log_error msg e (ready two_welcomes))) = quiet"
  by (simp_all add: created_def create_automation_rule_def next_automation_rule_id_def Let_def
      later_rule_def log_error_def ready_def two_welcomes_def str_nat_3)

lemma two_welcomes_atomic:
  "map embed_description (outbox (world (on_member_join ascii_runtime bob (ready two_welcomes))))
     = [''Hi'']"
  "map is_error (logged (on_member_join ascii_runtime bob (ready two_welcomes))) = [True, False]"
  by (simp_all add: on_member_join_def two_welcomes_def member_join_rule_def example_defs
      ascii_int_examples log_error_def log_info_def channel_send_def replace_str_def Let_def)

text \<open>
  Claim C1. A member joins while the registry holds two enabled member-join rules that send
  a message; fetching the channel of rule 1 fails. While the handler is suspended in that
  fetch, the tool server creates a third rule. The exception of rule 1 is caught and
  logged against rule 1, but the next step of the \<^verbatim>\<open>for\<close> statement raises
  \<^verbatim>\<open>RuntimeError\<close>, since the dict has changed size: the exception leaves the handler,
  and rule 2, which matches the event, is never evaluated and sends nothing. Without the
  creation the handler ends normally and rule 2 sends its message.
\<close>

theorem registry_growth_stops_remaining_rules:
  "fst (on_member_join_live ascii_runtime bob [[(later_rule, ''2024-01-02T00:00:00+00:00'')]]
          (ready two_welcomes)) = Some RuntimeError
   \<and> logged (snd (on_member_join_live ascii_runtime bob
          [[(later_rule, ''2024-01-02T00:00:00+00:00'')]] (ready two_welcomes)))
       = [LogError ''Error executing automation rule 1: '' (ApiError ''Unknown Channel'')]
   \<and> outbox (world (snd (on_member_join_live ascii_runtime bob
          [[(later_rule, ''2024-01-02T00:00:00+00:00'')]] (ready two_welcomes)))) = []
   \<and> map fst (automation_rules (snd (on_member_join_live ascii_runtime bob
          [[(later_rule, ''2024-01-02T00:00:00+00:00'')]] (ready two_welcomes))))
       = [''1'', ''2'', ''3'']
   \<and> member_join_guard bob (message_rule ''2'' ''member_join'' ''1'' ''Hi'')
   \<and> on_member_join_live ascii_runtime bob [] (ready two_welcomes)
       = (None, on_member_join ascii_runtime bob (ready two_welcomes))
   \<and> map embed_description
         (outbox (world (on_member_join ascii_runtime bob (ready two_welcomes)))) = [''Hi'']"
proof -
  let ?now = "''2024-01-02T00:00:00+00:00''"
  let ?failed = "log_error ''Error executing automation rule 1: '' (ApiError ''Unknown Channel'')
      (ready two_welcomes)"
  have start: "discord_client (ready two_welcomes)" "length (automation_rules (ready two_welcomes)) = 2"
    "automation_rules (ready two_welcomes) ! 0
       = (''1'', message_rule ''1'' ''member_join'' ''9'' ''Hello'')"
    by (simp_all add: ready_def two_welcomes_def)
  have grown: "length (automation_rules (created [(later_rule, ?now)] ?failed)) \<noteq> 2"
    unfolding later_rule_created by (simp add: two_welcomes_def)
  have "on_member_join_live ascii_runtime bob [[(later_rule, ?now)]] (ready two_welcomes)
      = live_loop (member_join_rule ascii_runtime bob)
          (\<lambda>p. member_join_awaits ascii_runtime bob (snd p)) 2 0 [[(later_rule, ?now)]]
          (ready two_welcomes)"
    by (simp add: on_member_join_live_def start)
  also have "\<dots> = live_loop (member_join_rule ascii_runtime bob)
          (\<lambda>p. member_join_awaits ascii_runtime bob (snd p)) 2 (Suc 0) []
          (created [(later_rule, ?now)] ?failed)"
    by (simp add: live_loop_next [of "ready two_welcomes"] start first_welcome_awaits
        first_welcome_fails)
  also have "\<dots> = (Some RuntimeError, created [(later_rule, ?now)] ?failed)"
    using grown by (rule live_loop_changed)
  finally have run: "on_member_join_live ascii_runtime bob [[(later_rule, ?now)]] (ready two_welcomes)
      = (Some RuntimeError, created [(later_rule, ?now)] ?failed)" .
  have guard: "member_join_guard bob (message_rule ''2'' ''member_join'' ''1'' ''Hi'')"
    by (simp add: example_defs)
  have after: "logged (created [(later_rule, ?now)] ?failed)
        = [LogError ''Error executing automation rule 1: '' (ApiError ''Unknown Channel'')]"
    "outbox (world (created [(later_rule, ?now)] ?failed)) = []"
    "map fst (automation_rules (created [(later_rule, ?now)] ?failed)) = [''1'', ''2'', ''3'']"
    unfolding later_rule_created by (simp_all add: two_welcomes_def quiet_def)
  show ?thesis
    unfolding run
    by (simp add: after guard on_member_join_live_quiescent two_welcomes_atomic)
qed

text \<open>
  Claim C2. A rule whose \<open>enabled\<close> field is false passes the guard of no handler
  (member join, reaction add, reaction remove), whatever its other fields are, and the
  loop body of every handler leaves the whole state as it is for such a rule: no platform
  call, no log entry, no change of a registry. Each loop therefore runs as on the
  registry without its disabled rules.
\<close>

theorem disabled_rule_never_acts:
  "(\<not> enabled r \<longrightarrow>
      \<not> member_join_guard m r \<and> \<not> reaction_guard ev r \<and> \<not> reaction_remove_guard ev r
      \<and> member_join_rule rt m (rid, r) st = st
      \<and> reaction_add_rule rt ev held (rid, r) st = st
      \<and> reaction_remove_rule rt ev held (rid, r) st = st)
   \<and> fold (member_join_rule rt m) (filter (\<lambda>p. enabled (snd p)) rules) st
       = fold (member_join_rule rt m) rules st
   \<and> fold (reaction_add_rule rt ev held) (filter (\<lambda>p. enabled (snd p)) rules) st
       = fold (reaction_add_rule rt ev held) rules st
   \<and> fold (reaction_remove_rule rt ev held) (filter (\<lambda>p. enabled (snd p)) rules) st
       = fold (reaction_remove_rule rt ev held) rules st"
  by (simp add: member_join_rule_disabled reaction_add_rule_disabled
      reaction_remove_rule_disabled member_join_guard_def reaction_guard_def
      reaction_remove_guard_def fold_skip [where P = "\<lambda>p. enabled (snd p)"])

theorem disabled_rule_never_acts_witness:
  "\<not> enabled ((message_rule ''1'' ''member_join'' ''1'' ''Hi'')\<lparr>enabled := False\<rparr>)
   \<and> \<not> member_join_guard bob ((message_rule ''1'' ''member_join'' ''1'' ''Hi'')\<lparr>enabled := False\<rparr>)
   \<and> member_join_guard bob (message_rule ''1'' ''member_join'' ''1'' ''Hi'')
   \<and> member_join_rule ascii_runtime bob
        (''1'', (message_rule ''1'' ''member_join'' ''1'' ''Hi'')\<lparr>enabled := False\<rparr>) (ready [])
      = ready []
   \<and> reaction_add_rule ascii_runtime thumbs_up []
        (''1'', (message_rule ''1'' ''member_join'' ''1'' ''Hi'')\<lparr>enabled := False\<rparr>) (ready [])
      = ready []
   \<and> reaction_remove_rule ascii_runtime thumbs_up []
        (''1'', (message_rule ''1'' ''member_join'' ''1'' ''Hi'')\<lparr>enabled := False\<rparr>) (ready [])
      = ready []"
proof -
  have off: "\<not> enabled ((message_rule ''1'' ''member_join'' ''1'' ''Hi'')\<lparr>enabled := False\<rparr>)"
    by simp
  have on: "member_join_guard bob (message_rule ''1'' ''member_join'' ''1'' ''Hi'')"
    by (simp add: example_defs)
  from off on
    disabled_rule_never_acts [of "(message_rule ''1'' ''member_join'' ''1'' ''Hi'')\<lparr>enabled := False\<rparr>"
      bob thumbs_up ascii_runtime "''1''" "ready []" "[]" "[]"]
  show ?thesis by simp
qed

text \<open>
  Claim C4. When the entry of a task is no longer in the task store at the moment its
  sleep ends, \<open>run_scheduled_task\<close> returns the state as it is, whatever its callable
  would have done: the callable is not invoked, no status is written, and the store, the
  other tasks, the log and the platform are unchanged. In the running system the task's
  coroutine ends at this step without ever awaiting the call.
\<close>

theorem cancelled_task_is_dropped:
  "scheduled_tasks st tid = None \<longrightarrow>
     run_scheduled_task tid task_callable st = st
     \<and> (bot s = st \<and> coroutines s tid = Some Sleeping \<longrightarrow>
          bot (exec rt (Wake tid) s) = st
          \<and> coroutines (exec rt (Wake tid) s) = (coroutines s)(tid := None))"
  by (simp add: run_scheduled_task_def run_begin_def)

theorem cancelled_task_is_dropped_witness:
  "scheduled_tasks (ready []) ''1'' = None
   \<and> run_scheduled_task ''1'' (\<lambda>w. (Inr [''sent''], w\<lparr>deleted := [1]\<rparr>)) (ready []) = ready []
   \<and> bot (exec ascii_runtime (Wake ''1'')
            \<lparr>bot = ready [], coroutines = [''1'' \<mapsto> Sleeping]\<rparr>) = ready []
   \<and> coroutines (exec ascii_runtime (Wake ''1'')
            \<lparr>bot = ready [], coroutines = [''1'' \<mapsto> Sleeping]\<rparr>) ''1'' = None"
proof -
  have gone: "scheduled_tasks (ready []) ''1'' = None"
    by (simp add: ready_def)
  from gone
    cancelled_task_is_dropped [of "ready []" "''1''" "\<lambda>w. (Inr [''sent''], w\<lparr>deleted := [1]\<rparr>)"
      "\<lparr>bot = ready [], coroutines = [''1'' \<mapsto> Sleeping]\<rparr>" ascii_runtime]
  show ?thesis by simp
qed

text \<open>
  Claim C6. On a reaction removal a rule passes the guard exactly when it passes the
  checks shared with reaction add and the \<open>remove_on_unreact\<close> entry of its payload is
  absent or true (in Python's sense of truth). A rule whose entry is \<open>False\<close> fails
  the guard, and the loop body leaves the state as it is for it.
\<close>

theorem remove_on_unreact_filter:
  "reaction_remove_guard ev r =
     (reaction_guard ev r
      \<and> (case map_of (action_payload r) ''remove_on_unreact'' of
           None \<Rightarrow> True
         | Some v \<Rightarrow> truthy v))
   \<and> (map_of (action_payload r) ''remove_on_unreact'' = Some (PBool False) \<longrightarrow>
        \<not> reaction_remove_guard ev r
        \<and> reaction_remove_rule rt ev held (rid, r) st = st)"
  by (simp add: reaction_remove_guard_def remove_on_unreact_def reaction_remove_rule_def)

theorem remove_on_unreact_filter_witness:
  "map_of (action_payload (role_rule ''1'' ''reaction_added''
       [(''role_id'', PStr ''5''), (''remove_on_unreact'', PBool False)])) ''remove_on_unreact''
     = Some (PBool False)
   \<and> \<not> reaction_remove_guard thumbs_up (role_rule ''1'' ''reaction_added''
       [(''role_id'', PStr ''5''), (''remove_on_unreact'', PBool False)])
   \<and> reaction_remove_rule ascii_runtime thumbs_up [5]
        (''1'', role_rule ''1'' ''reaction_added''
           [(''role_id'', PStr ''5''), (''remove_on_unreact'', PBool False)]) (ready [])
      = ready []
   \<and> reaction_remove_guard thumbs_up (role_rule ''1'' ''reaction_added'' [(''role_id'', PStr ''5'')])
   \<and> reaction_guard thumbs_up (role_rule ''1'' ''reaction_added''
       [(''role_id'', PStr ''5''), (''remove_on_unreact'', PBool False)])"
proof -
  have flag: "map_of (action_payload (role_rule ''1'' ''reaction_added''
       [(''role_id'', PStr ''5''), (''remove_on_unreact'', PBool False)])) ''remove_on_unreact''
     = Some (PBool False)"
    by (simp add: role_rule_def)
  have others: "reaction_remove_guard thumbs_up (role_rule ''1'' ''reaction_added'' [(''role_id'', PStr ''5'')])
   \<and> reaction_guard thumbs_up (role_rule ''1'' ''reaction_added''
       [(''role_id'', PStr ''5''), (''remove_on_unreact'', PBool False)])"
    by (simp add: example_defs)
  from flag others
    remove_on_unreact_filter [of thumbs_up "role_rule ''1'' ''reaction_added''
       [(''role_id'', PStr ''5''), (''remove_on_unreact'', PBool False)]" ascii_runtime "[5]"
       "''1''" "ready []"]
  show ?thesis by simp
qed

text \<open>
  Claim C10. When the reacting user is a bot account, \<open>on_reaction_add\<close> and
  \<open>on_reaction_remove\<close> return the state as it is: no member is fetched, no rule is
  looked at, no action runs, nothing is logged and no registry changes.
\<close>

theorem bot_reaction_is_ignored:
  "user_bot ev \<longrightarrow> on_reaction_add rt ev st = st \<and> on_reaction_remove rt ev st = st"
  by (simp add: on_reaction_add_def on_reaction_remove_def)

theorem bot_reaction_is_ignored_witness:
  "user_bot (thumbs_up\<lparr>user_bot := True\<rparr>)
   \<and> on_reaction_add ascii_runtime (thumbs_up\<lparr>user_bot := True\<rparr>)
        (ready [(''1'', message_rule ''1'' ''reaction_added'' ''1'' ''Hi'')])
      = ready [(''1'', message_rule ''1'' ''reaction_added'' ''1'' ''Hi'')]
   \<and> on_reaction_remove ascii_runtime (thumbs_up\<lparr>user_bot := True\<rparr>)
        (ready [(''1'', role_rule ''1'' ''reaction_added'' [(''role_id'', PStr ''5'')])])
      = ready [(''1'', role_rule ''1'' ''reaction_added'' [(''role_id'', PStr ''5'')])]"
proof -
  have is_bot: "user_bot (thumbs_up\<lparr>user_bot := True\<rparr>)"
    by simp
  from is_bot
    bot_reaction_is_ignored [of "thumbs_up\<lparr>user_bot := True\<rparr>" ascii_runtime
      "ready [(''1'', message_rule ''1'' ''reaction_added'' ''1'' ''Hi'')]"]
    bot_reaction_is_ignored [of "thumbs_up\<lparr>user_bot := True\<rparr>" ascii_runtime
      "ready [(''1'', role_rule ''1'' ''reaction_added'' [(''role_id'', PStr ''5'')])]"]
  show ?thesis by simp
qed

section \<open>Detection and the action loop\<close>

lemma caps_spam_filter:
  "caps_spam rt caps_ratio min_length ms acc =
     Inr (acc @ filter (caps_flagged rt caps_ratio min_length) ms)"
  by (induction ms arbitrary: acc) (simp_all add: caps_flagged_def py_truediv_def Let_def)

lemma delete_message_frame: "delete_message mid st = Inr st' \<Longrightarrow> same_registries st st'"
  by (auto simp: delete_message_def same_registries_def dest!: bind_exc_Inr)

lemma timeout_member_frame: "timeout_member uid st = Inr st' \<Longrightarrow> same_registries st st'"
  by (auto simp: timeout_member_def same_registries_def dest!: bind_exc_Inr)

lemma moderate_action_frame:
  assumes "moderate_action rt action minutes m acc = Inr acc'"
  shows "same_registries (mod_state acc) (mod_state acc')"
proof (cases "action = ''delete''")
  case True
  with assms obtain st' where "delete_message (msg_id m) (mod_state acc) = Inr st'"
    and "acc' = acc\<lparr>mod_state := st', applied := applied acc + 1\<rparr>"
    by (auto simp: moderate_action_def dest!: bind_exc_Inr)
  then show ?thesis by (simp add: delete_message_frame)
next
  case False
  show ?thesis
  proof (cases "action = ''timeout'' \<and> minutes \<noteq> None \<and> author_is_member m \<and> author_id m \<notin> set (timed_out acc)")
    case True
    with assms False obtain st' where "timeout_member (author_id m) (mod_state acc) = Inr st'"
      and "acc' = acc\<lparr>mod_state := st', timed_out := timed_out acc @ [author_id m],
                          applied := applied acc + 1\<rparr>"
      by (auto simp: moderate_action_def split: option.splits dest!: bind_exc_Inr)
    then show ?thesis by (simp add: timeout_member_frame)
  next
    case no: False
    with assms False have "acc' = acc"
      by (auto simp: moderate_action_def split: if_splits option.splits)
    then show ?thesis by simp
  qed
qed

lemma moderate_message_frame:
  "same_registries (mod_state acc) (mod_state (moderate_message rt action minutes m acc))"
  by (cases "moderate_action rt action minutes m acc")
    (simp_all add: moderate_message_def moderate_action_frame)

lemma fold_moderate_frame:
  "same_registries (mod_state acc) (mod_state (fold (moderate_message rt action minutes) ms acc))"
proof (induction ms arbitrary: acc)
  case Nil
  show ?case by simp
next
  case (Cons m ms)
  show ?case
    using moderate_message_frame [of acc rt action minutes m]
      Cons.IH [of "moderate_message rt action minutes m acc"]
    by (auto intro: same_registries_trans)
qed


lemma apply_actions_frame:
  "same_registries st (mod_state (apply_actions rt action dry minutes matches st))"
  using fold_moderate_frame [of "\<lparr>applied = 0, errors = [], timed_out = [], mod_state = st\<rparr>" rt]
  by (simp add: apply_actions_def Let_def)

lemma apply_actions_dry:
  "apply_actions rt action True minutes matches st =
     \<lparr>applied = 0, errors = [], timed_out = [], mod_state = st\<rparr>"
  by (simp add: apply_actions_def)

lemma auto_moderate_frame:
  assumes "auto_moderate_by_pattern rt args messages st = Inr (rep, st')"
  shows "same_registries st st'"
proof -
  from assms obtain action dry minutes matches
    where "st' = mod_state (apply_actions rt action dry minutes matches st)"
    unfolding auto_moderate_by_pattern_def Let_def
    by (auto split: if_splits dest!: bind_exc_Inr)
  then show ?thesis by (simp add: apply_actions_frame)
qed

lemma detect_dry_run [simp]:
  "detect rt pattern (args\<lparr>arg_dry_run := b\<rparr>) messages = detect rt pattern args messages"
  by (simp add: detect_def)

lemma auto_moderate_dry:
  "auto_moderate_by_pattern rt (args\<lparr>arg_dry_run := Some True\<rparr>) messages st =
     bind_exc (detect rt (lower rt (strip rt (arg_pattern_type args))) args messages) (\<lambda>matches.
       if lower rt (strip rt (case arg_action args of None \<Rightarrow> ''report'' | Some a \<Rightarrow> a))
            \<notin> set [''delete'', ''timeout'', ''report'']
       then Inl ValueError
       else Inr (\<lparr>matched = matches,
                  rep_action = lower rt (strip rt (case arg_action args of None \<Rightarrow> ''report'' | Some a \<Rightarrow> a)),
                  rep_dry_run = True, rep_applied = 0, rep_errors = []\<rparr>, st))"
  unfolding auto_moderate_by_pattern_def Let_def by (simp add: apply_actions_dry cong: if_cong)

lemma auto_moderate_matched:
  "map_sum id (\<lambda>res. map msg_id (matched (fst res)))
       (auto_moderate_by_pattern rt (args\<lparr>arg_dry_run := b\<rparr>) messages st)
     = bind_exc (detect rt (lower rt (strip rt (arg_pattern_type args))) args messages) (\<lambda>matches.
         if lower rt (strip rt (case arg_action args of None \<Rightarrow> ''report'' | Some a \<Rightarrow> a))
              \<notin> set [''delete'', ''timeout'', ''report'']
         then Inl ValueError
         else Inr (map msg_id matches))"
  by (cases "detect rt (lower rt (strip rt (arg_pattern_type args))) args messages")
    (simp_all add: auto_moderate_by_pattern_def Let_def bind_exc_def cong: if_cong)

lemma ascii_words:
  "ascii_lower (ascii_strip ''Caps_Spam '') = ''caps_spam''"
  "ascii_lower (ascii_strip ''delete'') = ''delete''"
  by code_simp+

lemma caps_delete_fields:
  "arg_pattern_type caps_delete = ''Caps_Spam ''" "arg_action caps_delete = Some ''delete''"
  "arg_min_length caps_delete = Some (NInt 5)" "arg_caps_ratio_threshold caps_delete = None"
  "arg_timeout_minutes caps_delete = None"
  by (simp_all add: caps_delete_def)

lemma caps_examples:
  "caps_flagged ascii_runtime (7 / 10) 5 (plain_message 1 1 ''HELLO'')"
  "\<not> caps_flagged ascii_runtime (7 / 10) 5 (plain_message 2 1 ''12345!'')"
  "\<not> caps_flagged ascii_runtime (7 / 10) 5 (plain_message 3 2 ''Hello'')"
  "filter (isalpha ascii_runtime) (msg_content (plain_message 2 1 ''12345!'')) = []"
  by (simp_all add: caps_flagged_def plain_message_def ascii_runtime_def ascii_isalpha_def
      ascii_isupper_def ascii_islower_def)

lemma detect_caps_spam:
  "detect rt ''caps_spam'' args ms =
     bind_exc (number_float rt (case arg_caps_ratio_threshold args of
                                 None \<Rightarrow> NFloat (truediv rt 7 10) | Some x \<Rightarrow> x))
       (\<lambda>caps_ratio.
     bind_exc (number_int rt (case arg_min_length args of None \<Rightarrow> NInt 15 | Some n \<Rightarrow> n))
       (\<lambda>min_length. Inr (filter (caps_flagged rt caps_ratio min_length) ms)))"
  by (simp add: detect_def caps_spam_filter del: caps_spam.simps)

lemma caps_threshold_overflow:
  "detect ascii_runtime ''caps_spam'' (caps_delete\<lparr>arg_caps_ratio_threshold := Some (NInt (2 ^ 1024))\<rparr>)
     [plain_message 1 1 ''HELLO''] = Inl OverflowError"
  by (simp add: detect_caps_spam bind_exc_def ascii_runtime_def)

text \<open>
  Claim C9. The loop of \<open>caps_spam\<close> never raises: for every window it returns the
  messages, in window order, that have at least one alphabetic character, whose share of
  uppercase letters among their alphabetic characters meets the threshold, and whose whole
  content has the minimum length. A message without alphabetic characters is not flagged,
  and the division is never reached for it. Through \<open>detect\<close>, the branch first
  converts the ratio with \<^verbatim>\<open>float\<close> and the minimum length with \<^verbatim>\<open>int\<close>
  (defaults \<^verbatim>\<open>0.7\<close> and \<^verbatim>\<open>15\<close>): for thresholds that both convert, it returns
  exactly the flagged messages and does not raise; an exception of \<open>detect\<close> on this
  branch is the exception of a conversion.
\<close>

theorem caps_spam_total_and_exact:
  "caps_spam rt caps_ratio min_length ms [] = Inr (filter (caps_flagged rt caps_ratio min_length) ms)
   \<and> (filter (isalpha rt) (msg_content m) = [] \<longrightarrow> \<not> caps_flagged rt caps_ratio min_length m)
   \<and> (number_float rt (case arg_caps_ratio_threshold args of
                          None \<Rightarrow> NFloat (truediv rt 7 10) | Some x \<Rightarrow> x) = Inr caps_ratio
        \<longrightarrow> number_int rt (case arg_min_length args of None \<Rightarrow> NInt 15 | Some n \<Rightarrow> n)
              = Inr min_length
        \<longrightarrow> detect rt ''caps_spam'' args ms = Inr (filter (caps_flagged rt caps_ratio min_length) ms))
   \<and> (\<forall>e. detect rt ''caps_spam'' args ms = Inl e \<longrightarrow>
          number_float rt (case arg_caps_ratio_threshold args of
                             None \<Rightarrow> NFloat (truediv rt 7 10) | Some x \<Rightarrow> x) = Inl e
          \<or> number_int rt (case arg_min_length args of None \<Rightarrow> NInt 15 | Some n \<Rightarrow> n) = Inl e)"
proof -
  have loop: "caps_spam rt caps_ratio min_length ms []
      = Inr (filter (caps_flagged rt caps_ratio min_length) ms)"
    by (simp add: caps_spam_filter)
  have exempt: "filter (isalpha rt) (msg_content m) = [] \<longrightarrow> \<not> caps_flagged rt caps_ratio min_length m"
    by (simp add: caps_flagged_def)
  have converted: "number_float rt (case arg_caps_ratio_threshold args of
                          None \<Rightarrow> NFloat (truediv rt 7 10) | Some x \<Rightarrow> x) = Inr caps_ratio
        \<longrightarrow> number_int rt (case arg_min_length args of None \<Rightarrow> NInt 15 | Some n \<Rightarrow> n)
              = Inr min_length
        \<longrightarrow> detect rt ''caps_spam'' args ms = Inr (filter (caps_flagged rt caps_ratio min_length) ms)"
    by (simp add: detect_caps_spam bind_exc_def)
  have raised: "\<forall>e. detect rt ''caps_spam'' args ms = Inl e \<longrightarrow>
          number_float rt (case arg_caps_ratio_threshold args of
                             None \<Rightarrow> NFloat (truediv rt 7 10) | Some x \<Rightarrow> x) = Inl e
          \<or> number_int rt (case arg_min_length args of None \<Rightarrow> NInt 15 | Some n \<Rightarrow> n) = Inl e"
    by (simp add: detect_caps_spam bind_exc_def split: sum.splits)
  from loop exempt converted raised show ?thesis by (intro conjI)
qed

theorem caps_spam_total_and_exact_witness:
  "filter (isalpha ascii_runtime) (msg_content (plain_message 2 1 ''12345!'')) = []
   \<and> \<not> caps_flagged ascii_runtime (7 / 10) 5 (plain_message 2 1 ''12345!'')
   \<and> caps_spam ascii_runtime (7 / 10) 5
        [plain_message 1 1 ''HELLO'', plain_message 2 1 ''12345!'', plain_message 3 2 ''Hello''] []
      = Inr [plain_message 1 1 ''HELLO'']
   \<and> number_float ascii_runtime (case arg_caps_ratio_threshold caps_delete of
         None \<Rightarrow> NFloat (truediv ascii_runtime 7 10) | Some x \<Rightarrow> x) = Inr (7 / 10)
   \<and> number_int ascii_runtime (case arg_min_length caps_delete of None \<Rightarrow> NInt 15 | Some n \<Rightarrow> n)
      = Inr 5
   \<and> detect ascii_runtime ''caps_spam'' caps_delete
        [plain_message 1 1 ''HELLO'', plain_message 2 1 ''12345!'', plain_message 3 2 ''Hello'']
      = Inr [plain_message 1 1 ''HELLO'']"
proof -
  have ratio: "number_float ascii_runtime (case arg_caps_ratio_threshold caps_delete of
         None \<Rightarrow> NFloat (truediv ascii_runtime 7 10) | Some x \<Rightarrow> x) = Inr (7 / 10)"
    by (simp add: caps_delete_fields ascii_runtime_def)
  have minimum: "number_int ascii_runtime
        (case arg_min_length caps_delete of None \<Rightarrow> NInt 15 | Some n \<Rightarrow> n) = Inr 5"
    by (simp add: caps_delete_fields)
  have flagged: "filter (caps_flagged ascii_runtime (7 / 10) 5)
        [plain_message 1 1 ''HELLO'', plain_message 2 1 ''12345!'', plain_message 3 2 ''Hello'']
      = [plain_message 1 1 ''HELLO'']"
    using caps_examples by simp
  note t = caps_spam_total_and_exact [of ascii_runtime "7 / 10" 5
      "[plain_message 1 1 ''HELLO'', plain_message 2 1 ''12345!'', plain_message 3 2 ''Hello'']"
      "plain_message 2 1 ''12345!''" caps_delete]
  from t have loop: "caps_spam ascii_runtime (7 / 10) 5
        [plain_message 1 1 ''HELLO'', plain_message 2 1 ''12345!'', plain_message 3 2 ''Hello''] []
      = Inr [plain_message 1 1 ''HELLO'']"
    by (simp only: flagged)
  from t have exempt: "\<not> caps_flagged ascii_runtime (7 / 10) 5 (plain_message 2 1 ''12345!'')"
    using caps_examples(4) by blast
  from t ratio minimum have tool: "detect ascii_runtime ''caps_spam'' caps_delete
        [plain_message 1 1 ''HELLO'', plain_message 2 1 ''12345!'', plain_message 3 2 ''Hello'']
      = Inr [plain_message 1 1 ''HELLO'']"
    unfolding flagged by blast
  from caps_examples(4) exempt loop ratio minimum tool show ?thesis by (intro conjI)
qed

text \<open>
  Claim C5. For the same arguments, window and state, \<open>auto_moderate_by_pattern\<close> with
  \<open>dry_run\<close> true and with \<open>dry_run\<close> false match the same messages, in the same
  order (or raise the same exception). The run with \<open>dry_run\<close> true returns the state
  as it is: nothing is deleted, nobody is timed out, no registry changes, and it reports
  nothing applied and no error. An absent \<open>dry_run\<close> is a true one.
\<close>

theorem dry_run_equivalence:
  "map_sum id (\<lambda>res. map msg_id (matched (fst res)))
       (auto_moderate_by_pattern rt (args\<lparr>arg_dry_run := Some True\<rparr>) messages st)
     = map_sum id (\<lambda>res. map msg_id (matched (fst res)))
         (auto_moderate_by_pattern rt (args\<lparr>arg_dry_run := Some False\<rparr>) messages st)
   \<and> (\<forall>rep st'. auto_moderate_by_pattern rt (args\<lparr>arg_dry_run := Some True\<rparr>) messages st
                    = Inr (rep, st') \<longrightarrow>
          st' = st \<and> rep_applied rep = 0 \<and> rep_errors rep = [])
   \<and> auto_moderate_by_pattern rt (args\<lparr>arg_dry_run := None\<rparr>) messages st
       = auto_moderate_by_pattern rt (args\<lparr>arg_dry_run := Some True\<rparr>) messages st"
proof -
  have same: "map_sum id (\<lambda>res. map msg_id (matched (fst res)))
       (auto_moderate_by_pattern rt (args\<lparr>arg_dry_run := Some True\<rparr>) messages st)
     = map_sum id (\<lambda>res. map msg_id (matched (fst res)))
         (auto_moderate_by_pattern rt (args\<lparr>arg_dry_run := Some False\<rparr>) messages st)"
    by (simp only: auto_moderate_matched)
  have inert: "st' = st \<and> rep_applied rep = 0 \<and> rep_errors rep = []"
    if "auto_moderate_by_pattern rt (args\<lparr>arg_dry_run := Some True\<rparr>) messages st = Inr (rep, st')"
    for rep st'
    using that unfolding auto_moderate_dry
    by (auto split: if_splits dest!: bind_exc_Inr)
  have dflt: "auto_moderate_by_pattern rt (args\<lparr>arg_dry_run := None\<rparr>) messages st
       = auto_moderate_by_pattern rt (args\<lparr>arg_dry_run := Some True\<rparr>) messages st"
    unfolding auto_moderate_by_pattern_def Let_def by (simp cong: if_cong)
  from same inert dflt show ?thesis by blast
qed


theorem dry_run_equivalence_witness:
  "auto_moderate_by_pattern ascii_runtime (caps_delete\<lparr>arg_dry_run := Some True\<rparr>)
       [plain_message 1 1 ''HELLO'', plain_message 3 2 ''Hello''] (ready [])
     = Inr (\<lparr>matched = [plain_message 1 1 ''HELLO''], rep_action = ''delete'', rep_dry_run = True,
              rep_applied = 0, rep_errors = []\<rparr>, ready [])
   \<and> map_sum id (\<lambda>res. map msg_id (matched (fst res)))
       (auto_moderate_by_pattern ascii_runtime (caps_delete\<lparr>arg_dry_run := Some False\<rparr>)
          [plain_message 1 1 ''HELLO'', plain_message 3 2 ''Hello''] (ready []))
     = Inr [1]
   \<and> map_sum id (\<lambda>res. deleted (world (snd res)))
       (auto_moderate_by_pattern ascii_runtime (caps_delete\<lparr>arg_dry_run := Some False\<rparr>)
          [plain_message 1 1 ''HELLO'', plain_message 3 2 ''Hello''] (ready []))
     = Inr [1]"
proof -
  have ratio: "truediv ascii_runtime 7 10 = 7 / 10"
    by (simp add: ascii_runtime_def)
  have flagged: "filter (caps_flagged ascii_runtime (7 / 10) 5)
        [plain_message 1 1 ''HELLO'', plain_message 3 2 ''Hello''] = [plain_message 1 1 ''HELLO'']"
    using caps_examples by simp
  have found: "detect ascii_runtime ''caps_spam'' caps_delete
        [plain_message 1 1 ''HELLO'', plain_message 3 2 ''Hello'']
      = Inr [plain_message 1 1 ''HELLO'']"
    by (simp add: detect_caps_spam bind_exc_def caps_delete_fields ratio caps_examples)
  have words: "lower ascii_runtime (strip ascii_runtime ''Caps_Spam '') = ''caps_spam''"
    "lower ascii_runtime (strip ascii_runtime ''delete'') = ''delete''"
    using ascii_words by (simp_all add: ascii_runtime_def)
  have dry: "auto_moderate_by_pattern ascii_runtime (caps_delete\<lparr>arg_dry_run := Some True\<rparr>)
       [plain_message 1 1 ''HELLO'', plain_message 3 2 ''Hello''] (ready [])
     = Inr (\<lparr>matched = [plain_message 1 1 ''HELLO''], rep_action = ''delete'', rep_dry_run = True,
              rep_applied = 0, rep_errors = []\<rparr>, ready [])"
    by (simp add: auto_moderate_dry bind_exc_def caps_delete_fields words found)
  have acts: "deleted (world (mod_state
        (apply_actions ascii_runtime ''delete'' False None [plain_message 1 1 ''HELLO'']
           (ready [])))) = [1]"
    by (simp add: apply_actions_def moderate_message_def moderate_action_def delete_message_def
        api_def bind_exc_def plain_message_def ready_def quiet_def)
  have live: "map_sum id (\<lambda>res. deleted (world (snd res)))
       (auto_moderate_by_pattern ascii_runtime (caps_delete\<lparr>arg_dry_run := Some False\<rparr>)
          [plain_message 1 1 ''HELLO'', plain_message 3 2 ''Hello''] (ready []))
     = Inr [1]"
    by (simp add: auto_moderate_by_pattern_def Let_def bind_exc_def caps_delete_fields words
        found acts)
  from dry live
    dry_run_equivalence [of ascii_runtime caps_delete
      "[plain_message 1 1 ''HELLO'', plain_message 3 2 ''Hello'']" "ready []"]
  show ?thesis by (simp add: plain_message_def)
qed

section \<open>Granting and revoking roles\<close>

lemma grant_fields [simp]:
  "logged (grant g u rl st) = logged st"
  "fails (world (grant g u rl st)) = fails (world st)"
  "guild_roles (world (grant g u rl st)) = guild_roles (world st)"
  "member_roles (world (grant g u rl st)) (g, u) =
     (if rl \<in> set (member_roles (world st) (g, u)) then member_roles (world st) (g, u)
      else member_roles (world st) (g, u) @ [rl])"
  by (simp_all add: grant_def Let_def)

lemma log_info_fields [simp]:
  "world (log_info msg st) = world st"
  "logged (log_info msg st) = logged st @ [LogInfo msg]"
  by (simp_all add: log_info_def)

lemma reaction_held_step:
  assumes "action_type r = ''assign_role''"
    and "map_of (action_payload r) ''role_id'' = Some v" and "truthy v" and "py_int rt v = Inr rl"
    and "rl \<in> set held"
  shows "reaction_add_rule rt ev held (rid, r) st = st"
  using assms
  by (simp add: reaction_add_rule_def reaction_add_action_def bind_exc_def
      split: option.splits)

lemma remove_lacking_step:
  assumes "action_type r = ''assign_role''"
    and "map_of (action_payload r) ''role_id'' = Some v" and "truthy v" and "py_int rt v = Inr rl"
    and "rl \<notin> set held"
  shows "reaction_remove_rule rt ev held (rid, r) st = st"
  using assms
  by (simp add: reaction_remove_rule_def reaction_remove_action_def bind_exc_def
      split: option.splits)


text \<open>
  Claim C7. A member of guild 7 already holds role 5 and the platform refuses
  \<^verbatim>\<open>add_roles\<close> for it. A member-join rule that assigns role 5 calls
  \<^verbatim>\<open>add_roles\<close> without looking at the member's roles, and the dispatch ends in an
  error logged against the rule; the same rule on a reaction finds the role among the
  member's roles and does nothing.
\<close>

theorem join_assigns_without_membership_test:
  "5 \<in> set (member_roles (world (held_refused [])) (7, 42))
   \<and> on_member_join ascii_runtime bob
        (held_refused [(''1'', role_rule ''1'' ''member_join'' [(''role_id'', PStr ''5'')])])
      = log_error ''Error executing automation rule 1: '' (ApiError ''Missing Permissions'')
          (held_refused [(''1'', role_rule ''1'' ''member_join'' [(''role_id'', PStr ''5'')])])
   \<and> on_reaction_add ascii_runtime thumbs_up
        (held_refused [(''1'', role_rule ''1'' ''reaction_added'' [(''role_id'', PStr ''5'')])])
      = held_refused [(''1'', role_rule ''1'' ''reaction_added'' [(''role_id'', PStr ''5'')])]"
  by (simp add: on_member_join_def on_reaction_add_def member_join_rule_def reaction_add_rule_def
      held_refused_def add_roles_def example_defs ascii_int_examples)

section \<open>Placeholders\<close>

lemma is_prefix_append [simp]: "is_prefix p (p @ s)"
  by (induction p) simp_all

lemma replace_literal:
  "brace_free t \<Longrightarrow>
     replace_nonempty (CHR ''{'' # rest) new (t @ s) = t @ replace_nonempty (CHR ''{'' # rest) new s"
  by (induction t) (auto simp: brace_free_def)

lemma replace_piece:
  assumes "plain p" and "q = User \<or> q = Username \<or> q = Server \<or> q = Emoji"
  shows "replace_nonempty (piece_text q) new (piece_text p @ s)
     = piece_text (fill q new p) @ replace_nonempty (piece_text q) new s"
proof (cases p)
  case (Lit t)
  with assms have free: "brace_free t" by simp
  have "replace_nonempty (piece_text q) new (t @ s) = t @ replace_nonempty (piece_text q) new s"
    using assms(2) replace_literal [OF free]
    by (elim disjE) (simp_all del: replace_nonempty.simps)
  moreover have "fill q new p = p"
    using assms(2) Lit by (elim disjE) (simp_all add: fill_def)
  ultimately show ?thesis by (simp add: Lit)
next
  case User
  from assms(2) show ?thesis
    by (elim disjE) (simp_all add: fill_def User)
next
  case Username
  from assms(2) show ?thesis
    by (elim disjE) (simp_all add: fill_def Username)
next
  case Server
  from assms(2) show ?thesis
    by (elim disjE) (simp_all add: fill_def Server)
next
  case Emoji
  from assms(2) show ?thesis
    by (elim disjE) (simp_all add: fill_def Emoji)
qed

lemma replace_nonempty_Nil [simp]: "replace_nonempty old new [] = []"
  by simp

lemma replace_render:
  assumes "list_all plain ps" and "q = User \<or> q = Username \<or> q = Server \<or> q = Emoji"
  shows "replace_str (piece_text q) new (render ps) = render (map (fill q new) ps)"
proof -
  have ne: "piece_text q \<noteq> []"
    using assms(2) by auto
  have "replace_nonempty (piece_text q) new (render ps) = render (map (fill q new) ps)"
    using assms(1)
  proof (induction ps)
    case Nil
    show ?case by (simp add: render_def)
  next
    case (Cons p ps)
    then have "plain p" and "list_all plain ps" by simp_all
    with Cons.IH replace_piece [OF \<open>plain p\<close> assms(2), of new "render ps"]
    show ?case by (simp add: render_def del: replace_nonempty.simps)
  qed
  with ne show ?thesis by (simp add: replace_str_def)
qed

lemma plain_fill: "brace_free v \<Longrightarrow> list_all plain ps \<Longrightarrow> list_all plain (map (fill q v) ps)"
  by (induction ps) (auto simp: fill_def)

lemma join_substitution:
  assumes "list_all plain ps" and "brace_free (member_mention m)" and "brace_free (member_name m)"
  shows "replace_str ''{server}'' (member_guild_name m)
           (replace_str ''{username}'' (member_name m)
              (replace_str ''{user}'' (member_mention m) (render ps)))
         = concat (map (join_value m) ps)"
proof -
  have 1: "replace_str ''{user}'' (member_mention m) (render ps)
      = render (map (fill User (member_mention m)) ps)"
    using replace_render [OF assms(1), of User] by simp
  have p1: "list_all plain (map (fill User (member_mention m)) ps)"
    by (rule plain_fill [OF assms(2) assms(1)])
  have 2: "replace_str ''{username}'' (member_name m) (render (map (fill User (member_mention m)) ps))
      = render (map (fill Username (member_name m)) (map (fill User (member_mention m)) ps))"
    using replace_render [OF p1, of Username] by simp
  have p2: "list_all plain (map (fill Username (member_name m)) (map (fill User (member_mention m)) ps))"
    by (rule plain_fill [OF assms(3) p1])
  have 3: "replace_str ''{server}'' (member_guild_name m)
        (render (map (fill Username (member_name m)) (map (fill User (member_mention m)) ps)))
      = render (map (fill Server (member_guild_name m))
          (map (fill Username (member_name m)) (map (fill User (member_mention m)) ps)))"
    using replace_render [OF p2, of Server] by simp
  have each: "piece_text (fill Server (member_guild_name m)
        (fill Username (member_name m) (fill User (member_mention m) p))) = join_value m p" for p
    by (cases p) (simp_all add: fill_def)
  show ?thesis
    unfolding 1 2 3 by (simp add: render_def each comp_def)
qed

lemma reaction_substitution:
  assumes "list_all plain ps" and "brace_free (user_mention ev)" and "brace_free (user_name ev)"
  shows "replace_str ''{emoji}'' (emoji_str ev)
           (replace_str ''{username}'' (user_name ev)
              (replace_str ''{user}'' (user_mention ev) (render ps)))
         = concat (map (reaction_value ev) ps)"
proof -
  have 1: "replace_str ''{user}'' (user_mention ev) (render ps)
      = render (map (fill User (user_mention ev)) ps)"
    using replace_render [OF assms(1), of User] by simp
  have p1: "list_all plain (map (fill User (user_mention ev)) ps)"
    by (rule plain_fill [OF assms(2) assms(1)])
  have 2: "replace_str ''{username}'' (user_name ev) (render (map (fill User (user_mention ev)) ps))
      = render (map (fill Username (user_name ev)) (map (fill User (user_mention ev)) ps))"
    using replace_render [OF p1, of Username] by simp
  have p2: "list_all plain (map (fill Username (user_name ev)) (map (fill User (user_mention ev)) ps))"
    by (rule plain_fill [OF assms(3) p1])
  have 3: "replace_str ''{emoji}'' (emoji_str ev)
        (render (map (fill Username (user_name ev)) (map (fill User (user_mention ev)) ps)))
      = render (map (fill Emoji (emoji_str ev))
          (map (fill Username (user_name ev)) (map (fill User (user_mention ev)) ps)))"
    using replace_render [OF p2, of Emoji] by simp
  have each: "piece_text (fill Emoji (emoji_str ev)
        (fill Username (user_name ev) (fill User (user_mention ev) p))) = reaction_value ev p" for p
    by (cases p) (simp_all add: fill_def)
  show ?thesis
    unfolding 1 2 3 by (simp add: render_def each comp_def)
qed


lemma channel_send_ok:
  "fails (world st) (Send cid) = None \<Longrightarrow>
     channel_send cid title description footer st =
       Inr (st\<lparr>world := (world st)\<lparr>outbox := outbox (world st) @
         [\<lparr>embed_channel = cid, embed_title = title, embed_description = description,
           embed_footer = footer\<rparr>]\<rparr>\<rparr>)"
  by (simp add: channel_send_def api_def bind_exc_def)

text \<open>
  Claim C8, as amended. A \<open>send_message\<close> action substitutes by successive
  \<^verbatim>\<open>str.replace\<close> calls: \<^verbatim>\<open>{user}\<close>, \<^verbatim>\<open>{username}\<close> and \<^verbatim>\<open>{server}\<close> on
  member join, and \<^verbatim>\<open>{user}\<close>, \<^verbatim>\<open>{username}\<close> and \<^verbatim>\<open>{emoji}\<close> on reaction add.
  For a template whose plain text holds no opening brace, and a mention and a name
  without one, the description of the embed sent is the template with each of these
  placeholders replaced by the event's value; \<^verbatim>\<open>{emoji}\<close> stays as written on member
  join and \<^verbatim>\<open>{server}\<close> stays as written on reaction add. The rule is one that passes
  the guard, names a channel that can be fetched and written to, and has the rendered
  template as its content.
\<close>

theorem placeholders_substituted:
  "list_all plain ps \<and> action_type r = ''send_message''
   \<and> map_of (action_payload r) ''channel_id'' = Some v \<and> truthy v \<and> py_int rt v = Inr cid
   \<and> map_of (action_payload r) ''content'' = Some (PStr (render ps))
   \<and> fails (world st) (FetchChannel cid) = None \<and> fails (world st) (Send cid) = None \<longrightarrow>
     (member_join_guard m r \<and> brace_free (member_mention m) \<and> brace_free (member_name m) \<longrightarrow>
        outbox (world (member_join_rule rt m (rid, r) st)) =
          outbox (world st) @
            [\<lparr>embed_channel = cid, embed_title = ''Welcome!'',
              embed_description = concat (map (join_value m) ps), embed_footer = None\<rparr>])
     \<and> (reaction_guard ev r \<and> brace_free (user_mention ev) \<and> brace_free (user_name ev) \<longrightarrow>
        outbox (world (reaction_add_rule rt ev held (rid, r) st)) =
          outbox (world st) @
            [\<lparr>embed_channel = cid, embed_title = ''Reaction Event'',
              embed_description = concat (map (reaction_value ev) ps),
              embed_footer = Some (''Reaction: '' @ emoji_str ev)\<rparr>])"
proof (intro impI conjI; (elim conjE)?)
  assume r: "list_all plain ps" "action_type r = ''send_message''"
    "map_of (action_payload r) ''channel_id'' = Some v" "truthy v" "py_int rt v = Inr cid"
    "map_of (action_payload r) ''content'' = Some (PStr (render ps))"
    "fails (world st) (FetchChannel cid) = None" "fails (world st) (Send cid) = None"
  {
    assume g: "member_join_guard m r" "brace_free (member_mention m)" "brace_free (member_name m)"
    have "member_join_action rt m rid r st =
        Inr (log_info (''Executed automation rule '' @ rid @ '': sent welcome message'')
          (st\<lparr>world := (world st)\<lparr>outbox := outbox (world st) @
            [\<lparr>embed_channel = cid, embed_title = ''Welcome!'',
              embed_description = concat (map (join_value m) ps), embed_footer = None\<rparr>]\<rparr>\<rparr>))"
      using r by (simp add: member_join_action_def bind_exc_def fetch_channel_def api_def
          payload_content_def channel_send_ok join_substitution [OF r(1) g(2) g(3)])
    with g(1) show "outbox (world (member_join_rule rt m (rid, r) st)) =
          outbox (world st) @
            [\<lparr>embed_channel = cid, embed_title = ''Welcome!'',
              embed_description = concat (map (join_value m) ps), embed_footer = None\<rparr>]"
      by (simp add: member_join_rule_def log_info_def)
  }
  {
    assume g: "reaction_guard ev r" "brace_free (user_mention ev)" "brace_free (user_name ev)"
    have "reaction_add_action rt ev held rid r st =
        Inr (log_info (''Executed automation rule '' @ rid @ '': sent message'')
          (st\<lparr>world := (world st)\<lparr>outbox := outbox (world st) @
            [\<lparr>embed_channel = cid, embed_title = ''Reaction Event'',
              embed_description = concat (map (reaction_value ev) ps),
              embed_footer = Some (''Reaction: '' @ emoji_str ev)\<rparr>]\<rparr>\<rparr>))"
      using r by (simp add: reaction_add_action_def bind_exc_def fetch_channel_def api_def
          payload_content_def channel_send_ok reaction_substitution [OF r(1) g(2) g(3)])
    with g(1) show "outbox (world (reaction_add_rule rt ev held (rid, r) st)) =
          outbox (world st) @
            [\<lparr>embed_channel = cid, embed_title = ''Reaction Event'',
              embed_description = concat (map (reaction_value ev) ps),
              embed_footer = Some (''Reaction: '' @ emoji_str ev)\<rparr>]"
      by (simp add: reaction_add_rule_def log_info_def)
  }
qed

theorem placeholders_substituted_witness:
  "render [Lit ''Welcome '', Username, Lit ''!''] = ''Welcome {username}!''
   \<and> member_join_guard bob (message_rule ''1'' ''member_join'' ''1'' ''Welcome {username}!'')
   \<and> map embed_description (outbox (world (member_join_rule ascii_runtime bob
         (''1'', message_rule ''1'' ''member_join'' ''1'' ''Welcome {username}!'') (ready []))))
       = [''Welcome bob!'']
   \<and> reaction_guard thumbs_up
         (message_rule ''1'' ''reaction_added'' ''1'' ''{user} sent {emoji} to {server}'')
   \<and> map embed_description (outbox (world (reaction_add_rule ascii_runtime thumbs_up []
         (''1'', message_rule ''1'' ''reaction_added'' ''1'' ''{user} sent {emoji} to {server}'')
         (ready []))))
       = [''<@42> sent +1 to {server}'']"
proof -
  let ?J = "message_rule ''1'' ''member_join'' ''1'' ''Welcome {username}!''"
  let ?R = "message_rule ''1'' ''reaction_added'' ''1'' ''{user} sent {emoji} to {server}''"
  let ?ps = "[Lit ''Welcome '', Username, Lit ''!'']"
  let ?qs = "[User, Lit '' sent '', Emoji, Lit '' to '', Server]"
  have one: "py_int ascii_runtime (PStr ''1'') = Inr 1"
    by (simp add: ascii_runtime_def ascii_int_examples)
  have quiet1: "fails (world (ready [])) (FetchChannel 1) = None"
    "fails (world (ready [])) (Send 1) = None" "outbox (world (ready [])) = []"
    by (simp_all add: ready_def quiet_def)
  have text_j: "render ?ps = ''Welcome {username}!''" and text_r: "render ?qs = ''{user} sent {emoji} to {server}''"
    by (simp_all add: render_def)
  have pre_j: "list_all plain ?ps \<and> action_type ?J = ''send_message''
     \<and> map_of (action_payload ?J) ''channel_id'' = Some (PStr ''1'') \<and> truthy (PStr ''1'')
     \<and> py_int ascii_runtime (PStr ''1'') = Inr 1
     \<and> map_of (action_payload ?J) ''content'' = Some (PStr (render ?ps))
     \<and> fails (world (ready [])) (FetchChannel 1) = None
     \<and> fails (world (ready [])) (Send 1) = None"
    using one quiet1 text_j by (simp add: message_rule_def brace_free_def)
  have pre_r: "list_all plain ?qs \<and> action_type ?R = ''send_message''
     \<and> map_of (action_payload ?R) ''channel_id'' = Some (PStr ''1'') \<and> truthy (PStr ''1'')
     \<and> py_int ascii_runtime (PStr ''1'') = Inr 1
     \<and> map_of (action_payload ?R) ''content'' = Some (PStr (render ?qs))
     \<and> fails (world (ready [])) (FetchChannel 1) = None
     \<and> fails (world (ready [])) (Send 1) = None"
    using one quiet1 text_r by (simp add: message_rule_def brace_free_def)
  have guard_j: "member_join_guard bob ?J" and guard_r: "reaction_guard thumbs_up ?R"
    by (simp_all add: example_defs)
  have hyp_j: "member_join_guard bob ?J \<and> brace_free (member_mention bob) \<and> brace_free (member_name bob)"
    using guard_j by (simp add: bob_def brace_free_def)
  have hyp_r: "reaction_guard thumbs_up ?R \<and> brace_free (user_mention thumbs_up)
     \<and> brace_free (user_name thumbs_up)"
    using guard_r by (simp add: thumbs_up_def brace_free_def)
  from pre_j hyp_j
    placeholders_substituted [where ps = ?ps and r = ?J and v = "PStr ''1''" and rt = ascii_runtime
      and cid = 1 and st = "ready []" and m = bob and rid = "''1''"]
  have sent_j: "outbox (world (member_join_rule ascii_runtime bob (''1'', ?J) (ready []))) =
      outbox (world (ready [])) @
        [\<lparr>embed_channel = 1, embed_title = ''Welcome!'',
          embed_description = concat (map (join_value bob) ?ps), embed_footer = None\<rparr>]"
    by blast
  from pre_r hyp_r
    placeholders_substituted [where ps = ?qs and r = ?R and v = "PStr ''1''" and rt = ascii_runtime
      and cid = 1 and st = "ready []" and ev = thumbs_up and rid = "''1''" and held = "[]"]
  have sent_r: "outbox (world (reaction_add_rule ascii_runtime thumbs_up [] (''1'', ?R) (ready []))) =
      outbox (world (ready [])) @
        [\<lparr>embed_channel = 1, embed_title = ''Reaction Event'',
          embed_description = concat (map (reaction_value thumbs_up) ?qs),
          embed_footer = Some (''Reaction: '' @ emoji_str thumbs_up)\<rparr>]"
    by blast
  have filled: "concat (map (join_value bob) ?ps) = ''Welcome bob!''"
    "concat (map (reaction_value thumbs_up) ?qs) = ''<@42> sent +1 to {server}''"
    by (simp_all add: bob_def thumbs_up_def)
  from text_j guard_j guard_r show ?thesis
    unfolding sent_j sent_r quiet1 filled by simp
qed

text \<open>
  The claim as stated fails on reaction add: the content \<^verbatim>\<open>Hello {server}\<close> is sent
  as it is, although the event's guild is named \<^verbatim>\<open>Guild\<close>.
\<close>

theorem server_placeholder_counterexample:
  "map embed_description (outbox (world (on_reaction_add ascii_runtime thumbs_up
       (ready [(''1'', message_rule ''1'' ''reaction_added'' ''1'' ''Hello {server}'')]))))
     = [''Hello {server}'']
   \<and> guild_name thumbs_up = ''Guild''"
  by (simp add: on_reaction_add_def reaction_add_rule_def channel_send_def replace_str_def
      log_info_def example_defs ascii_int_examples)

section \<open>The lifecycle of a task\<close>

lemma digit_char_inj: "a < 10 \<Longrightarrow> b < 10 \<Longrightarrow> digit_char a = digit_char b \<Longrightarrow> a = b"
proof -
  assume a: "a < 10" and b: "b < 10" and eq: "digit_char a = digit_char b"
  from eq have "(of_char (char_of (48 + a) :: char) :: nat) = of_char (char_of (48 + b) :: char)"
    by (simp add: digit_char_def)
  with a b show "a = b" by simp
qed

lemma str_nat_nonempty: "str_nat n \<noteq> []"
  by (subst str_nat.simps) simp

lemma str_nat_inj: "str_nat m = str_nat n \<Longrightarrow> m = n"
proof (induction m arbitrary: n rule: str_nat.induct)
  case (1 m)
  show ?case
  proof (cases "m < 10")
    case small: True
    show ?thesis
    proof (cases "n < 10")
      case True
      with small "1.prems" have "digit_char m = digit_char n"
        by (simp add: str_nat.simps [of m] str_nat.simps [of n])
      with small True show ?thesis by (rule digit_char_inj)
    next
      case False
      with small "1.prems" have "[digit_char m] = str_nat (n div 10) @ [digit_char (n mod 10)]"
        by (simp add: str_nat.simps [of m] str_nat.simps [of n])
      then have "str_nat (n div 10) = []" by simp
      with str_nat_nonempty show ?thesis by blast
    qed
  next
    case big: False
    show ?thesis
    proof (cases "n < 10")
      case True
      with big "1.prems" have "str_nat (m div 10) @ [digit_char (m mod 10)] = [digit_char n]"
        by (simp add: str_nat.simps [of m] str_nat.simps [of n])
      then have "str_nat (m div 10) = []" by simp
      with str_nat_nonempty show ?thesis by blast
    next
      case False
      with big "1.prems" have "str_nat (m div 10) @ [digit_char (m mod 10)]
          = str_nat (n div 10) @ [digit_char (n mod 10)]"
        by (simp add: str_nat.simps [of m] str_nat.simps [of n])
      then have front: "str_nat (m div 10) = str_nat (n div 10)"
        and lastd: "digit_char (m mod 10) = digit_char (n mod 10)"
        by simp_all
      from big front have "m div 10 = n div 10" by (rule "1.IH")
      moreover from lastd have "m mod 10 = n mod 10"
        by (intro digit_char_inj) simp_all
      ultimately show ?thesis by (metis div_mult_mod_eq)
    qed
  qed
qed

lemma lifecycle_step_refl [simp]: "lifecycle_step x x"
proof (cases x)
  case None
  then show ?thesis by simp
next
  case (Some a)
  then show ?thesis by (cases a) simp_all
qed

lemma quiet_step:
  assumes "scheduled_tasks (bot s') = scheduled_tasks (bot s)"
    and "scheduled_task_counter (bot s') = scheduled_task_counter (bot s)"
    and "coroutines s' = coroutines s" and "coherent s"
  shows "coherent s' \<and> lifecycle_step (status_of s tid) (status_of s' tid)"
  using assms by (simp add: coherent_def status_of_def)

lemma registries_step:
  assumes "same_registries (bot s) st'" and "coherent s"
  shows "coherent (s\<lparr>bot := st'\<rparr>) \<and> lifecycle_step (status_of s tid) (status_of (s\<lparr>bot := st'\<rparr>) tid)"
  using assms by (intro quiet_step) (simp_all add: same_registries_def)


lemma coherentD:
  assumes "coherent s"
  shows "(coroutines s tid = Some Sleeping) = (status_of s tid = Some Scheduled)"
    and "(coroutines s tid = Some Invoking) = (status_of s tid = Some Running)"
    and "scheduled_tasks (bot s) tid = None
      \<or> (\<exists>k. k \<le> scheduled_task_counter (bot s) \<and> tid = str_nat k)"
  using assms unfolding coherent_def by blast+

lemma store_task_step:
  assumes c: "coherent s" and st: "store_task ttype pl due now (bot s) = (tid, st')"
  shows "coherent \<lparr>bot = st', coroutines = (coroutines s)(tid \<mapsto> Sleeping)\<rparr>
    \<and> lifecycle_step (status_of s x)
          (status_of \<lparr>bot = st', coroutines = (coroutines s)(tid \<mapsto> Sleeping)\<rparr> x)"
proof -
  define n where "n = scheduled_task_counter (bot s)"
  define t where "t = \<lparr>task_ident = tid, task_type = ttype, run_at = due, task_created_at = now,
               status = Scheduled, payload = pl, task_result = None, task_error = None\<rparr>"
  from st have tid: "tid = str_nat (Suc n)"
    and st': "st' = (bot s)\<lparr>scheduled_task_counter := Suc n,
                scheduled_tasks := (scheduled_tasks (bot s))(tid \<mapsto> t)\<rparr>"
    by (auto simp: store_task_def next_scheduled_task_id_def Let_def n_def t_def)
  have fresh: "scheduled_tasks (bot s) tid = None"
  proof (rule ccontr)
    assume "scheduled_tasks (bot s) tid \<noteq> None"
    with coherentD(3) [OF c, of tid] obtain k where "k \<le> n" and "tid = str_nat k"
      by (auto simp: n_def)
    with tid have "k = Suc n" by (simp add: str_nat_inj)
    with \<open>k \<le> n\<close> show False by simp
  qed
  let ?s' = "\<lparr>bot = st', coroutines = (coroutines s)(tid \<mapsto> Sleeping)\<rparr>"
  have stat: "status_of ?s' y = (if y = tid then Some Scheduled else status_of s y)" for y
    by (simp add: status_of_def st' t_def)
  have "coherent ?s'"
    unfolding coherent_def
  proof (intro allI conjI)
    fix y
    show "(coroutines ?s' y = Some Sleeping) = (status_of ?s' y = Some Scheduled)"
      using coherentD(1) [OF c, of y] by (simp add: stat)
    show "(coroutines ?s' y = Some Invoking) = (status_of ?s' y = Some Running)"
      using coherentD(2) [OF c, of y] by (simp add: stat)
    show "scheduled_tasks (bot ?s') y = None
      \<or> (\<exists>k. k \<le> scheduled_task_counter (bot ?s') \<and> y = str_nat k)"
    proof (cases "y = tid")
      case True
      with tid show ?thesis by (auto simp: st')
    next
      case False
      with coherentD(3) [OF c, of y] show ?thesis
        by (auto simp: st' n_def intro: le_SucI)
    qed
  qed
  moreover have "lifecycle_step (status_of s x) (status_of ?s' x)"
    using fresh by (simp add: stat) (simp add: status_of_def)
  ultimately show ?thesis by blast
qed

lemma spawn_step:
  assumes c: "coherent s"
    and res: "(\<exists>e. res = Inl e)
      \<or> (\<exists>ttype pl due now. res = Inr (store_task ttype pl due now (bot s)))"
  shows "coherent (spawn s res) \<and> lifecycle_step (status_of s x) (status_of (spawn s res) x)"
proof (cases res)
  case (Inl e')
  with c show ?thesis by (simp add: spawn_def)
next
  case (Inr p)
  with res obtain ttype pl due now where p: "p = store_task ttype pl due now (bot s)"
    by auto
  obtain tid st' where ts: "store_task ttype pl due now (bot s) = (tid, st')"
    by (cases "store_task ttype pl due now (bot s)")
  from store_task_step [OF c ts, of x] Inr p ts show ?thesis
    by (simp add: spawn_def)
qed

lemma wake_step:
  assumes c: "coherent s"
  shows "coherent (exec rt (Wake tid) s)
    \<and> lifecycle_step (status_of s x) (status_of (exec rt (Wake tid) s) x)"
proof (cases "coroutines s tid = Some Sleeping")
  case False
  with c show ?thesis by (simp split: option.splits phase.splits)
next
  case True
  with coherentD(1) [OF c, of tid] obtain t where t: "scheduled_tasks (bot s) tid = Some t"
    and sched: "status t = Scheduled"
    by (auto simp: status_of_def)
  let ?s' = "\<lparr>bot = (bot s)\<lparr>scheduled_tasks := (scheduled_tasks (bot s))(tid \<mapsto> t\<lparr>status := Running\<rparr>)\<rparr>,
              coroutines = (coroutines s)(tid \<mapsto> Invoking)\<rparr>"
  have ex: "exec rt (Wake tid) s = ?s'"
    using True t by (simp add: run_begin_def)
  have stat: "status_of ?s' y = (if y = tid then Some Running else status_of s y)" for y
    by (simp add: status_of_def)
  have "coherent ?s'"
    unfolding coherent_def
  proof (intro allI conjI)
    fix y
    show "(coroutines ?s' y = Some Sleeping) = (status_of ?s' y = Some Scheduled)"
      using coherentD(1) [OF c, of y] by (simp add: stat)
    show "(coroutines ?s' y = Some Invoking) = (status_of ?s' y = Some Running)"
      using coherentD(2) [OF c, of y] by (simp add: stat)
    show "scheduled_tasks (bot ?s') y = None
      \<or> (\<exists>k. k \<le> scheduled_task_counter (bot ?s') \<and> y = str_nat k)"
      using coherentD(3) [OF c, of y] t by (cases "y = tid") auto
  qed
  moreover have "lifecycle_step (status_of s x) (status_of ?s' x)"
    using t sched by (simp add: stat) (simp add: status_of_def)
  ultimately show ?thesis by (simp only: ex)
qed

lemma run_finish_tasks:
  "scheduled_tasks st tid = Some t \<Longrightarrow>
     \<exists>t'. scheduled_tasks (run_finish tid outcome st) = (scheduled_tasks st)(tid \<mapsto> t')
          \<and> (status t' = Completed \<or> status t' = Failed)
          \<and> scheduled_task_counter (run_finish tid outcome st) = scheduled_task_counter st"
  by (cases outcome) (auto simp: run_finish_def log_error_def split: list.splits)

lemma finish_step:
  assumes c: "coherent s"
  shows "coherent (exec rt (Finish tid outcome) s)
    \<and> lifecycle_step (status_of s x) (status_of (exec rt (Finish tid outcome) s) x)"
proof (cases "coroutines s tid = Some Invoking")
  case False
  with c show ?thesis by (simp split: option.splits phase.splits)
next
  case True
  with coherentD(2) [OF c, of tid] obtain t where t: "scheduled_tasks (bot s) tid = Some t"
    and running: "status t = Running"
    by (auto simp: status_of_def)
  from run_finish_tasks [OF t, of outcome] obtain t'
    where tasks: "scheduled_tasks (run_finish tid outcome (bot s)) = (scheduled_tasks (bot s))(tid \<mapsto> t')"
      and fin: "status t' = Completed \<or> status t' = Failed"
      and counter: "scheduled_task_counter (run_finish tid outcome (bot s)) = scheduled_task_counter (bot s)"
    by blast
  let ?s' = "\<lparr>bot = run_finish tid outcome (bot s), coroutines = (coroutines s)(tid := None)\<rparr>"
  have ex: "exec rt (Finish tid outcome) s = ?s'"
    using True by simp
  have stat: "status_of ?s' y = (if y = tid then Some (status t') else status_of s y)" for y
    by (simp add: status_of_def tasks)
  have "coherent ?s'"
    unfolding coherent_def
  proof (intro allI conjI)
    fix y
    show "(coroutines ?s' y = Some Sleeping) = (status_of ?s' y = Some Scheduled)"
      using coherentD(1) [OF c, of y] fin by (auto simp: stat)
    show "(coroutines ?s' y = Some Invoking) = (status_of ?s' y = Some Running)"
      using coherentD(2) [OF c, of y] fin by (auto simp: stat)
    show "scheduled_tasks (bot ?s') y = None
      \<or> (\<exists>k. k \<le> scheduled_task_counter (bot ?s') \<and> y = str_nat k)"
      using coherentD(3) [OF c, of y] t by (cases "y = tid") (auto simp: tasks counter)
  qed
  moreover have "lifecycle_step (status_of s x) (status_of ?s' x)"
    using t running fin by (auto simp: stat) (simp_all add: status_of_def)
  ultimately show ?thesis by (simp only: ex)
qed


lemma schedule_task_shape:
  "schedule_task ttype pl resolved now st = Inl ValueError
   \<or> (\<exists>e. schedule_task ttype pl resolved now st = Inl e \<and> resolved = Inl e)
   \<or> (\<exists>due pl'. schedule_task ttype pl resolved now st = Inr (store_task ttype pl' due now st))"
  by (cases resolved) (auto simp: schedule_task_def bind_exc_def Let_def)

lemma send_scheduled_message_shape:
  "(\<exists>e. send_scheduled_message ch body resolved now st = Inl e)
   \<or> (\<exists>due pl. send_scheduled_message ch body resolved now st
                  = Inr (store_task ''send_message'' pl due now st))"
  by (cases resolved) (auto simp: send_scheduled_message_def bind_exc_def)

lemma exec_step:
  assumes c: "coherent s"
  shows "coherent (exec rt i s) \<and> lifecycle_step (status_of s x) (status_of (exec rt i s) x)"
proof (cases i)
  case (OnReady nm)
  show ?thesis unfolding OnReady
    by (rule quiet_step [OF _ _ _ c]) (simp_all add: log_info_def)
next
  case OnDisconnect
  show ?thesis unfolding OnDisconnect
    by (rule quiet_step [OF _ _ _ c]) simp_all
next
  case (MemberJoin m)
  show ?thesis unfolding MemberJoin exec.simps
    by (rule registries_step [OF on_member_join_frame c])
next
  case (ReactionAdd ev)
  show ?thesis unfolding ReactionAdd exec.simps
    by (rule registries_step [OF on_reaction_add_frame c])
next
  case (ReactionRemove ev)
  show ?thesis unfolding ReactionRemove exec.simps
    by (rule registries_step [OF on_reaction_remove_frame c])
next
  case (CreateRule args now)
  show ?thesis unfolding CreateRule
    by (rule quiet_step [OF _ _ _ c])
      (simp_all add: create_automation_rule_def next_automation_rule_id_def Let_def)
next
  case (ScheduleTask ttype pl resolved now)
  show ?thesis
  proof (cases "discord_client (bot s)")
    case False
    with c show ?thesis by (simp add: ScheduleTask)
  next
    case True
    have "coherent (spawn s (schedule_task ttype pl resolved now (bot s)))
      \<and> lifecycle_step (status_of s x)
           (status_of (spawn s (schedule_task ttype pl resolved now (bot s))) x)"
      using schedule_task_shape [of ttype pl resolved now "bot s"]
      by (intro spawn_step [OF c]) blast
    with True show ?thesis by (simp add: ScheduleTask)
  qed
next
  case (SendScheduledMessage ch body resolved now)
  show ?thesis
  proof (cases "discord_client (bot s)")
    case False
    with c show ?thesis by (simp add: SendScheduledMessage)
  next
    case True
    have "coherent (spawn s (send_scheduled_message ch body resolved now (bot s)))
      \<and> lifecycle_step (status_of s x)
           (status_of (spawn s (send_scheduled_message ch body resolved now (bot s))) x)"
      using send_scheduled_message_shape [of ch body resolved now "bot s"]
      by (intro spawn_step [OF c]) blast
    with True show ?thesis by (simp add: SendScheduledMessage)
  qed
next
  case (AutoModerate args messages)
  show ?thesis
  proof (cases "auto_moderate_by_pattern rt args messages (bot s)")
    case (Inl e)
    with c show ?thesis by (simp add: AutoModerate)
  next
    case (Inr res)
    then have "same_registries (bot s) (snd res)"
      by (cases res) (auto dest: auto_moderate_frame)
    from registries_step [OF this c, of x] Inr c show ?thesis
      by (simp add: AutoModerate)
  qed
next
  case (Wake tid)
  show ?thesis unfolding Wake by (rule wake_step [OF c])
next
  case (Finish tid outcome)
  show ?thesis unfolding Finish by (rule finish_step [OF c])
next
  case (PlatformChange w)
  show ?thesis unfolding PlatformChange
    by (rule quiet_step [OF _ _ _ c]) simp_all
qed

lemma initial_coherent: "coherent (initial w)"
  by (simp add: coherent_def initial_def status_of_def)

lemma run_coherent: "coherent s \<Longrightarrow> coherent (run rt inputs s)"
  unfolding run_def
proof (induction inputs arbitrary: s)
  case Nil
  then show ?case by simp
next
  case (Cons i inputs)
  from exec_step [OF Cons.prems] have "coherent (exec rt i s)" by blast
  then show ?case by (simp add: Cons.IH)
qed

lemma schedule_task_created:
  "schedule_task ttype pl resolved now st = Inr (tid, st') \<Longrightarrow>
     map_option status (scheduled_tasks st' tid) = Some Scheduled"
  by (cases resolved)
    (auto simp: schedule_task_def store_task_def next_scheduled_task_id_def bind_exc_def Let_def
      split: if_splits)

lemma store_task_fresh:
  assumes c: "coherent s" and st: "store_task ttype pl due now (bot s) = (tid, st')"
  shows "scheduled_tasks (bot s) tid = None
    \<and> (\<forall>y. y \<noteq> tid \<longrightarrow> scheduled_tasks st' y = scheduled_tasks (bot s) y)"
proof -
  define n where "n = scheduled_task_counter (bot s)"
  from st have tid: "tid = str_nat (Suc n)"
    and others: "\<forall>y. y \<noteq> tid \<longrightarrow> scheduled_tasks st' y = scheduled_tasks (bot s) y"
    by (auto simp: store_task_def next_scheduled_task_id_def Let_def n_def)
  have "scheduled_tasks (bot s) tid = None"
  proof (rule ccontr)
    assume "scheduled_tasks (bot s) tid \<noteq> None"
    with coherentD(3) [OF c, of tid] obtain k where "k \<le> n" and "tid = str_nat k"
      by (auto simp: n_def)
    with tid have "k = Suc n" by (simp add: str_nat_inj)
    with \<open>k \<le> n\<close> show False by simp
  qed
  with others show ?thesis by blast
qed

lemma spawn_keeps:
  assumes c: "coherent s" and stored: "scheduled_tasks (bot s) x \<noteq> None"
    and res: "(\<exists>e. res = Inl e)
      \<or> (\<exists>ttype pl due now. res = Inr (store_task ttype pl due now (bot s)))"
  shows "scheduled_tasks (bot (spawn s res)) x = scheduled_tasks (bot s) x"
proof (cases res)
  case (Inl e)
  then show ?thesis by (simp add: spawn_def)
next
  case (Inr p)
  with res obtain ttype pl due now where p: "p = store_task ttype pl due now (bot s)"
    by auto
  obtain tid st' where ts: "store_task ttype pl due now (bot s) = (tid, st')"
    by (cases "store_task ttype pl due now (bot s)")
  from store_task_fresh [OF c ts] stored have "scheduled_tasks st' x = scheduled_tasks (bot s) x"
    by metis
  with Inr p ts show ?thesis by (simp add: spawn_def)
qed

lemma terminal_kept:
  assumes c: "coherent s"
    and ended: "status_of s x = Some Completed \<or> status_of s x = Some Failed"
  shows "scheduled_tasks (bot (exec rt i s)) x = scheduled_tasks (bot s) x"
proof (cases i)
  case (OnReady nm)
  show ?thesis by (simp add: OnReady log_info_def)
next
  case OnDisconnect
  show ?thesis by (simp add: OnDisconnect)
next
  case (MemberJoin m)
  from on_member_join_frame [of "bot s" rt m] show ?thesis
    by (simp add: MemberJoin same_registries_def)
next
  case (ReactionAdd ev)
  from on_reaction_add_frame [of "bot s" rt ev] show ?thesis
    by (simp add: ReactionAdd same_registries_def)
next
  case (ReactionRemove ev)
  from on_reaction_remove_frame [of "bot s" rt ev] show ?thesis
    by (simp add: ReactionRemove same_registries_def)
next
  case (CreateRule args now)
  show ?thesis
    by (simp add: CreateRule create_automation_rule_def next_automation_rule_id_def Let_def)
next
  case (ScheduleTask ttype pl resolved now)
  from ended have stored: "scheduled_tasks (bot s) x \<noteq> None"
    by (auto simp: status_of_def)
  have "scheduled_tasks (bot (spawn s (schedule_task ttype pl resolved now (bot s)))) x
      = scheduled_tasks (bot s) x"
    using schedule_task_shape [of ttype pl resolved now "bot s"]
    by (intro spawn_keeps [OF c stored]) blast
  then show ?thesis by (simp add: ScheduleTask)
next
  case (SendScheduledMessage ch body resolved now)
  from ended have stored: "scheduled_tasks (bot s) x \<noteq> None"
    by (auto simp: status_of_def)
  have "scheduled_tasks (bot (spawn s (send_scheduled_message ch body resolved now (bot s)))) x
      = scheduled_tasks (bot s) x"
    using send_scheduled_message_shape [of ch body resolved now "bot s"]
    by (intro spawn_keeps [OF c stored]) blast
  then show ?thesis by (simp add: SendScheduledMessage)
next
  case (AutoModerate args messages)
  show ?thesis
  proof (cases "auto_moderate_by_pattern rt args messages (bot s)")
    case (Inl e)
    then show ?thesis by (simp add: AutoModerate)
  next
    case (Inr res)
    then have "same_registries (bot s) (snd res)"
      by (cases res) (auto dest: auto_moderate_frame)
    with Inr show ?thesis by (simp add: AutoModerate same_registries_def)
  qed
next
  case (Wake tid)
  show ?thesis
  proof (cases "coroutines s tid = Some Sleeping")
    case False
    then show ?thesis by (simp add: Wake split: option.splits phase.splits)
  next
    case True
    with coherentD(1) [OF c, of tid] ended have "tid \<noteq> x" by auto
    with True show ?thesis
      by (simp add: Wake run_begin_def split: option.splits)
  qed
next
  case (Finish tid outcome)
  show ?thesis
  proof (cases "coroutines s tid = Some Invoking")
    case False
    then show ?thesis by (simp add: Finish split: option.splits phase.splits)
  next
    case True
    with coherentD(2) [OF c, of tid] ended have "tid \<noteq> x" by auto
    with True show ?thesis
      by (cases outcome)
        (simp_all add: Finish run_finish_def log_error_def split: option.splits list.splits)
  qed
next
  case (PlatformChange w)
  show ?thesis by (simp add: PlatformChange)
qed

text \<open>
  Claim C3. In every state the system reaches from its start, whatever the next step is
  (a handler, a tool call, the end of a task's sleep, the return of a task's call, a
  change of the platform), the status of each task either stays as it is or moves along
  \<open>Scheduled\<close> to \<open>Running\<close>, \<open>Running\<close> to \<open>Completed\<close>, or \<open>Running\<close> to \<open>Failed\<close>;
  a task that appears is \<open>Scheduled\<close>, and \<open>schedule_task\<close> stores it so. A task
  is \<open>Running\<close> exactly while its coroutine awaits the call, and \<open>Scheduled\<close> exactly
  while its coroutine sleeps. The entry of a \<open>Completed\<close> or \<open>Failed\<close> task is never
  written again: its status, result and error stay as they were set.
\<close>

theorem task_status_lifecycle:
  "lifecycle_step (status_of (run rt inputs (initial w)) tid)
      (status_of (exec rt i (run rt inputs (initial w))) tid)
   \<and> (status_of (run rt inputs (initial w)) tid = Some Scheduled)
       = (coroutines (run rt inputs (initial w)) tid = Some Sleeping)
   \<and> (status_of (run rt inputs (initial w)) tid = Some Running)
       = (coroutines (run rt inputs (initial w)) tid = Some Invoking)
   \<and> (schedule_task ttype pl resolved now st = Inr (tid, st') \<longrightarrow>
        map_option status (scheduled_tasks st' tid) = Some Scheduled)
   \<and> (status_of (run rt inputs (initial w)) tid = Some Completed
        \<or> status_of (run rt inputs (initial w)) tid = Some Failed \<longrightarrow>
        scheduled_tasks (bot (exec rt i (run rt inputs (initial w)))) tid
          = scheduled_tasks (bot (run rt inputs (initial w))) tid)"
proof -
  have c: "coherent (run rt inputs (initial w))"
    by (rule run_coherent [OF initial_coherent])
  from exec_step [OF c, of rt i tid] coherentD(1,2) [OF c, of tid] schedule_task_created
    terminal_kept [OF c, of tid rt i]
  show ?thesis
    by simp
qed

lemma str_nat_1: "str_nat (Suc 0) = ''1''"
  by code_simp

lemmas run_defs =
  run_def initial_def status_of_def spawn_def schedule_task_def store_task_def
  next_scheduled_task_id_def run_begin_def run_finish_def bind_exc_def log_info_def log_error_def
  str_nat_1

theorem task_status_lifecycle_witness:
  "schedule_task ''send_message'' None (Inr 10) 0
       (bot (run ascii_runtime [OnReady ''bot''] (initial quiet)))
     = Inr (''1'', bot (run ascii_runtime
          [OnReady ''bot'', ScheduleTask ''send_message'' None (Inr 10) 0] (initial quiet)))
   \<and> status_of (run ascii_runtime
          [OnReady ''bot'', ScheduleTask ''send_message'' None (Inr 10) 0] (initial quiet)) ''1''
       = Some Scheduled
   \<and> status_of (run ascii_runtime
          [OnReady ''bot'', ScheduleTask ''send_message'' None (Inr 10) 0, Wake ''1'']
          (initial quiet)) ''1''
       = Some Running
   \<and> status_of (run ascii_runtime
          [OnReady ''bot'', ScheduleTask ''send_message'' None (Inr 10) 0, Wake ''1'',
           Finish ''1'' (Inl (ApiError ''Missing Access''))] (initial quiet)) ''1''
       = Some Failed
   \<and> status_of (exec ascii_runtime (Finish ''1'' (Inr [''sent'']))
         (run ascii_runtime
          [OnReady ''bot'', ScheduleTask ''send_message'' None (Inr 10) 0, Wake ''1'',
           Finish ''1'' (Inl (ApiError ''Missing Access''))] (initial quiet))) ''1''
       = Some Failed"
proof -
  let ?a = "[OnReady ''bot'', ScheduleTask ''send_message'' None (Inr 10) 0]"
  let ?b = "[OnReady ''bot'', ScheduleTask ''send_message'' None (Inr 10) 0, Wake ''1'',
           Finish ''1'' (Inl (ApiError ''Missing Access''))]"
  have made: "schedule_task ''send_message'' None (Inr 10) 0
       (bot (run ascii_runtime [OnReady ''bot''] (initial quiet)))
     = Inr (''1'', bot (run ascii_runtime ?a (initial quiet)))"
    by (simp add: run_defs)
  have sched: "status_of (run ascii_runtime ?a (initial quiet)) ''1'' = Some Scheduled"
    using task_status_lifecycle [of ascii_runtime "[OnReady ''bot'']" quiet "''1''"
        "Wake ''1''" "''send_message''" None "Inr 10" 0
        "bot (run ascii_runtime [OnReady ''bot''] (initial quiet))"
        "bot (run ascii_runtime ?a (initial quiet))"] made
    by (simp add: status_of_def)
  have sleeping: "coroutines (run ascii_runtime ?a (initial quiet)) ''1'' = Some Sleeping"
    using task_status_lifecycle [of ascii_runtime ?a quiet "''1''"] sched by blast
  have running: "status_of (run ascii_runtime
          [OnReady ''bot'', ScheduleTask ''send_message'' None (Inr 10) 0, Wake ''1'']
          (initial quiet)) ''1'' = Some Running"
    by (simp add: run_defs)
  have failed: "status_of (run ascii_runtime ?b (initial quiet)) ''1'' = Some Failed"
    by (simp add: run_defs)
  have kept: "lifecycle_step (status_of (run ascii_runtime ?b (initial quiet)) ''1'')
      (status_of (exec ascii_runtime (Finish ''1'' (Inr [''sent''])) (run ascii_runtime ?b (initial quiet))) ''1'')"
    using task_status_lifecycle [of ascii_runtime ?b quiet "''1''" "Finish ''1'' (Inr [''sent''])"]
    by blast
  have still: "status_of (exec ascii_runtime (Finish ''1'' (Inr [''sent'']))
      (run ascii_runtime ?b (initial quiet))) ''1'' = Some Failed"
    using kept unfolding failed
    by (cases "status_of (exec ascii_runtime (Finish ''1'' (Inr [''sent'']))
      (run ascii_runtime ?b (initial quiet))) ''1''") simp_all
  from made sched running failed still show ?thesis by simp
qed

end
